theory Spec2Isabelle
  imports Main "HOL-Library.Sublist" "HOL-Library.AList"
begin

section \<open>Strings and errors\<close>

text \<open>
  Go strings are byte sequences; they are modelled as \<open>char list\<close>. The library functions
  \<open>strings.TrimSpace\<close>, \<open>strings.ToLower\<close>, \<open>strings.Contains\<close>, \<open>strings.Split\<close>,
  \<open>strings.HasPrefix\<close> and \<open>html.EscapeString\<close> are modelled on bytes.
  \<open>TrimSpace\<close> trims the six ASCII white-space bytes and \<open>ToLower\<close> lower-cases the
  letters A to Z: this is what Go computes on a string whose bytes are all below 0x80. On
  other strings Go also trims the Unicode white space (U+0085, U+00A0 and the further
  code points of \<open>unicode.IsSpace\<close>) and lower-cases the letters beyond ASCII, which the
  model leaves as they are. The general theorems below use of the two functions only
  that \<open>TrimSpace\<close> of the empty string is empty; the evaluations are on ASCII strings.
  A Go \<open>error\<close> value is its message.
\<close>

datatype error = Error string

fun msg :: "error \<Rightarrow> string" where
  "msg (Error m) = m"

definition wrap :: "string \<Rightarrow> error \<Rightarrow> error" where
  \<comment> \<open>\<open>fmt.Errorf("<prefix>: %w", err)\<close>\<close>
  "wrap p e = Error (p @ '': '' @ msg e)"

definition isSpace :: "char \<Rightarrow> bool" where
  "isSpace c = (c \<in> set [CHR 0x09, CHR 0x0A, CHR 0x0B, CHR 0x0C, CHR 0x0D, CHR '' ''])"

definition TrimSpace :: "string \<Rightarrow> string" where
  "TrimSpace s = rev (dropWhile isSpace (rev (dropWhile isSpace s)))"

definition lowerChar :: "char \<Rightarrow> char" where
  "lowerChar c =
     (case map_of (zip ''ABCDEFGHIJKLMNOPQRSTUVWXYZ'' ''abcdefghijklmnopqrstuvwxyz'') c of
        Some d \<Rightarrow> d
      | None \<Rightarrow> c)"

definition ToLower :: "string \<Rightarrow> string" where
  "ToLower s = map lowerChar s"

fun Contains :: "string \<Rightarrow> string \<Rightarrow> bool" where
  "Contains [] sub = (sub = [])"
| "Contains (c # cs) sub = (prefix sub (c # cs) \<or> Contains cs sub)"

definition HasPrefix :: "string \<Rightarrow> string \<Rightarrow> bool" where
  "HasPrefix s p = prefix p s"

section \<open>Data model\<close>

text \<open>\<open>model.Category\<close> and \<open>model.Email\<close>; time stamps are seconds as integers.\<close>

record Category =
  cat_ID :: string
  Name :: string
  Description :: string

record Email =
  ID :: string
  UserID :: string
  GmailID :: string
  From :: string
  Subject :: string
  Body :: string
  Summary :: string
  CategoryID :: string
  ReceivedAt :: int
  Archived :: bool
  CreatedAt :: int
  UpdatedAt :: int

section \<open>Inference client: resolving the model's answer to a category\<close>

text \<open>
  \<open>findBestCategoryMatch\<close> (package ai). The two \<open>for\<close> loops over the category names are
  \<open>exactLoop\<close> and \<open>partialLoop\<close>; each returns at the first name that passes its test.
\<close>

fun exactLoop :: "string \<Rightarrow> string list \<Rightarrow> string option" where
  "exactLoop responseLower [] = None"
| "exactLoop responseLower (category # rest) =
     (if ToLower (TrimSpace category) = responseLower then Some category
      else exactLoop responseLower rest)"

fun partialLoop :: "string \<Rightarrow> string list \<Rightarrow> string option" where
  "partialLoop responseLower [] = None"
| "partialLoop responseLower (category # rest) =
     (let categoryLower = ToLower (TrimSpace category) in
      if Contains responseLower categoryLower \<or> Contains categoryLower responseLower
      then Some category
      else partialLoop responseLower rest)"

definition findBestCategoryMatch :: "string \<Rightarrow> string list \<Rightarrow> string" where
  "findBestCategoryMatch response categories =
     (let responseLower = ToLower (TrimSpace response) in
      case exactLoop responseLower categories of
        Some category \<Rightarrow> category
      | None \<Rightarrow>
          (case partialLoop responseLower categories of
             Some category \<Rightarrow> category
           | None \<Rightarrow> (case categories of first # _ \<Rightarrow> first | [] \<Rightarrow> '''')))"

text \<open>
  \<open>aiClient.ClassifyEmail\<close>: the provider call (\<open>classifyEmailWithGemini\<close> or
  \<open>classifyEmailWithOpenAIStyle\<close>, an HTTP exchange) is the parameter \<open>reply\<close>, the raw
  answer or the transport error.
\<close>

definition ClassifyEmail :: "(error + string) \<Rightarrow> Category list \<Rightarrow> error + string" where
  "ClassifyEmail reply categories =
     (case reply of
        Inl err \<Rightarrow> Inl (wrap ''failed to classify email'' err)
      | Inr classification \<Rightarrow> Inr (findBestCategoryMatch classification (map Name categories)))"

text \<open>The two tests of the loops, as properties of a category name.\<close>

definition exactMatch :: "string \<Rightarrow> string \<Rightarrow> bool" where
  "exactMatch response category = (ToLower (TrimSpace category) = ToLower (TrimSpace response))"

definition substringMatch :: "string \<Rightarrow> string \<Rightarrow> bool" where
  "substringMatch response category =
     (sublist (ToLower (TrimSpace category)) (ToLower (TrimSpace response)) \<or>
      sublist (ToLower (TrimSpace response)) (ToLower (TrimSpace category)))"

definition firstWith :: "('a \<Rightarrow> bool) \<Rightarrow> 'a list \<Rightarrow> 'a \<Rightarrow> bool" where
  \<comment> \<open>\<open>x\<close> is the first element of \<open>xs\<close> that satisfies \<open>P\<close>\<close>
  "firstWith P xs x = (\<exists>i < length xs. xs ! i = x \<and> P x \<and> (\<forall>j < i. \<not> P (xs ! j)))"

section \<open>Repositories (package memory)\<close>

text \<open>
  \<open>model.User\<close>. The in-memory repositories are Go maps keyed by the record's id; a map is
  modelled as an association list with at most one entry per key (\<open>AList.update\<close> replaces
  the entry of a key, \<open>AList.delete\<close> removes it, \<open>map_of\<close> reads it). The order of the
  entries stands for the unspecified iteration order of the Go map.
\<close>

record User =
  user_ID :: string
  GoogleID :: string
  user_Email :: string
  user_Name :: string
  AccessToken :: string
  RefreshToken :: string

type_synonym UserStore = "(string \<times> User) list"
type_synonym EmailStore = "(string \<times> Email) list"

definition user_FindByID :: "UserStore \<Rightarrow> string \<Rightarrow> error + User" where
  "user_FindByID users ident =
     (case map_of users ident of
        None \<Rightarrow> Inl (Error ''user not found'')
      | Some user \<Rightarrow> Inr user)"

definition repo_Create :: "Email \<Rightarrow> EmailStore \<Rightarrow> error option \<times> EmailStore" where
  "repo_Create email emails = (None, AList.update (ID email) email emails)"

definition repo_FindByID :: "EmailStore \<Rightarrow> string \<Rightarrow> error + Email" where
  "repo_FindByID emails ident =
     (case map_of emails ident of
        None \<Rightarrow> Inl (Error ''email not found'')
      | Some email \<Rightarrow> Inr email)"

definition repo_FindByUserID :: "EmailStore \<Rightarrow> string \<Rightarrow> Email list" where
  "repo_FindByUserID emails userID = filter (\<lambda>email. UserID email = userID) (map snd emails)"

definition repo_FindByGmailID :: "EmailStore \<Rightarrow> string \<Rightarrow> string \<Rightarrow> error + Email" where
  "repo_FindByGmailID emails userID gmailID =
     (case find (\<lambda>email. UserID email = userID \<and> GmailID email = gmailID) (map snd emails) of
        None \<Rightarrow> Inl (Error ''email not found'')
      | Some email \<Rightarrow> Inr email)"

definition repo_Update :: "Email \<Rightarrow> EmailStore \<Rightarrow> error option \<times> EmailStore" where
  "repo_Update email emails =
     (case map_of emails (ID email) of
        None \<Rightarrow> (Some (Error ''email not found''), emails)
      | Some _ \<Rightarrow> (None, AList.update (ID email) email emails))"

definition repo_Delete :: "string \<Rightarrow> EmailStore \<Rightarrow> error option \<times> EmailStore" where
  "repo_Delete ident emails = (None, AList.delete ident emails)"

section \<open>Unsubscribe automation (package service)\<close>

text \<open>
  The library calls of \<open>findUnsubscribeLinks\<close> are parameters: \<open>reFindAll i body\<close> is
  \<open>regexp.MustCompile(patterns[i]).FindAllString(body, -1)\<close>, \<open>hrefSubmatch s\<close> is the first
  group of \<open>hrefPattern.FindStringSubmatch(s)\<close> when the pattern matches,
  \<open>parseRequestURI s\<close> says that \<open>url.ParseRequestURI(s)\<close> succeeds with a scheme and a
  host, and \<open>htmlAnchors body\<close> is the text and the \<open>href\<close> attribute of every \<open>a\<close> element
  goquery finds (\<open>None\<close> when the document cannot be read).
\<close>

record WebLib =
  reFindAll :: "nat \<Rightarrow> string \<Rightarrow> string list"
  hrefSubmatch :: "string \<Rightarrow> string option"
  parseRequestURI :: "string \<Rightarrow> bool"
  htmlAnchors :: "string \<Rightarrow> (string \<times> string option) list option"

definition Trim :: "string \<Rightarrow> string \<Rightarrow> string" where
  \<comment> \<open>\<open>strings.Trim(s, cutset)\<close>\<close>
  "Trim s cutset =
     rev (dropWhile (\<lambda>c. c \<in> set cutset) (rev (dropWhile (\<lambda>c. c \<in> set cutset) s)))"

definition unsubscribeKeywords :: "string list" where
  "unsubscribeKeywords =
     [''unsubscribe'', ''opt out'', ''opt-out'', ''optout'', ''cancel subscription'',
      ''stop email'', ''stop emails'', ''email preferences'', ''manage preferences'',
      ''unsubscribe here'', ''opt out now'', ''remove me'', ''unsub'', ''no thanks'',
      ''decline'', ''quit'', ''turn off'', ''disable'', ''cancel'']"

definition isUnsubscribeRelatedText :: "string \<Rightarrow> bool" where
  "isUnsubscribeRelatedText text =
     (let textLower = ToLower text in list_ex (\<lambda>keyword. Contains textLower keyword) unsubscribeKeywords)"

definition isValidURL :: "WebLib \<Rightarrow> string \<Rightarrow> bool" where
  "isValidURL lib input =
     (let input' = (if \<not> HasPrefix input ''http://'' \<and> \<not> HasPrefix input ''https://''
                    then ''https://'' @ input else input)
      in parseRequestURI lib input')"

definition cleanMatch :: "WebLib \<Rightarrow> string \<Rightarrow> string" where
  "cleanMatch lib match =
     (let c = Trim (TrimSpace match) [CHR 0x22, CHR 0x27] in
      if Contains c ''href='' \<or> Contains c ''src=''
      then (case hrefSubmatch lib c of Some submatch \<Rightarrow> submatch | None \<Rightarrow> c)
      else c)"

fun matchLoop :: "WebLib \<Rightarrow> string list \<Rightarrow> string list \<Rightarrow> string list" where
  "matchLoop lib [] urls = urls"
| "matchLoop lib (match # rest) urls =
     (let c = cleanMatch lib match in
      matchLoop lib rest (if isValidURL lib c then urls @ [c] else urls))"

fun anchorLoop :: "WebLib \<Rightarrow> (string \<times> string option) list \<Rightarrow> string list \<Rightarrow> string list" where
  "anchorLoop lib [] urls = urls"
| "anchorLoop lib ((t, attr) # rest) urls =
     (let text = ToLower (TrimSpace t) in
      case attr of
        Some href \<Rightarrow>
          anchorLoop lib rest
            (if isUnsubscribeRelatedText text \<and> isValidURL lib href then urls @ [href] else urls)
      | None \<Rightarrow> anchorLoop lib rest urls)"

fun dedupeLoop :: "string list \<Rightarrow> string list \<Rightarrow> string list \<Rightarrow> string list" where
  "dedupeLoop [] uniqueURLs result = result"
| "dedupeLoop (u # rest) uniqueURLs result =
     (if u \<notin> set uniqueURLs then dedupeLoop rest (u # uniqueURLs) (result @ [u])
      else dedupeLoop rest uniqueURLs result)"

definition findUnsubscribeLinks :: "WebLib \<Rightarrow> Email \<Rightarrow> string list \<times> error option" where
  "findUnsubscribeLinks lib email =
     (let urls = matchLoop lib (reFindAll lib 0 (Body email)) [];
          urls = matchLoop lib (reFindAll lib 1 (Body email)) urls;
          urls = (case htmlAnchors lib (Body email) of
                    Some anchors \<Rightarrow> anchorLoop lib anchors urls
                  | None \<Rightarrow> urls)
      in (dedupeLoop urls [] [], None))"

text \<open>
  \<open>handleUnsubscribeURL\<close> drives the network; its outcome for a URL is the parameter
  \<open>handle\<close> (\<open>None\<close> is the nil error). The URLs handed to it are recorded in order: they are
  the network calls of \<open>processEmailUnsubscribe\<close>.
\<close>

fun tryURLs :: "(string \<Rightarrow> error option) \<Rightarrow> string list \<Rightarrow> string list
    \<Rightarrow> error option \<times> string list" where
  "tryURLs handle [] calls =
     (Some (Error ''failed to unsubscribe using any of the found URLs''), calls)"
| "tryURLs handle (unsubscribeURL # rest) calls =
     (case handle unsubscribeURL of
        Some err \<Rightarrow> tryURLs handle rest (calls @ [unsubscribeURL])
      | None \<Rightarrow> (None, calls @ [unsubscribeURL]))"

definition processEmailUnsubscribe :: "WebLib \<Rightarrow> (string \<Rightarrow> error option) \<Rightarrow> Email
    \<Rightarrow> error option \<times> string list" where
  "processEmailUnsubscribe lib handle email =
     (case findUnsubscribeLinks lib email of
        (unsubscribeURLs, Some err) \<Rightarrow> (Some (wrap ''failed to find unsubscribe links'' err), [])
      | (unsubscribeURLs, None) \<Rightarrow>
          if length unsubscribeURLs = 0
          then (Some (Error ''no unsubscribe links found in email body''), [])
          else tryURLs handle unsubscribeURLs [])"

text \<open>
  \<open>UnsubscribeEmails\<close>. \<open>findByID\<close> is \<open>emailRepo.FindByID\<close>. Besides the returned error
  the model gives the network calls and the errors the second loop hands to the logger (one
  for each message whose unsubscribe failed).
\<close>

fun validateLoop :: "(string \<Rightarrow> error + Email) \<Rightarrow> string \<Rightarrow> string list \<Rightarrow> Email list
    \<Rightarrow> Email list" where
  "validateLoop findByID userID [] valid = valid"
| "validateLoop findByID userID (emailID # rest) valid =
     (case findByID emailID of
        Inl err \<Rightarrow> validateLoop findByID userID rest valid
      | Inr email \<Rightarrow>
          if UserID email \<noteq> userID then validateLoop findByID userID rest valid
          else validateLoop findByID userID rest (valid @ [email]))"

fun unsubscribeLoop :: "WebLib \<Rightarrow> (string \<Rightarrow> error option) \<Rightarrow> Email list
    \<Rightarrow> string list \<times> error list \<Rightarrow> string list \<times> error list" where
  "unsubscribeLoop lib handle [] (calls, logged) = (calls, logged)"
| "unsubscribeLoop lib handle (email # rest) (calls, logged) =
     (case processEmailUnsubscribe lib handle email of
        (Some err, cs) \<Rightarrow> unsubscribeLoop lib handle rest (calls @ cs, logged @ [err])
      | (None, cs) \<Rightarrow> unsubscribeLoop lib handle rest (calls @ cs, logged))"

definition UnsubscribeEmails :: "WebLib \<Rightarrow> (string \<Rightarrow> error option) \<Rightarrow> (string \<Rightarrow> error + Email)
    \<Rightarrow> string list \<Rightarrow> string \<Rightarrow> error option \<times> string list \<times> error list" where
  "UnsubscribeEmails lib handle findByID emailIDs userID =
     (let emailsToUnsubscribe = validateLoop findByID userID emailIDs [] in
      if length emailsToUnsubscribe = 0 then (None, [], [])
      else (None, unsubscribeLoop lib handle emailsToUnsubscribe ([], [])))"

section \<open>Bulk delete (package service and package gmail)\<close>

text \<open>
  \<open>gmailClient.DeleteEmails\<close>. The remote mailbox is a state of type \<open>'r\<close>; the API call
  \<open>g.client.Users.Messages.Delete(user, messageID).Do()\<close> is the parameter \<open>apiDelete\<close>,
  which returns the call's error and the mailbox after it. The loop logs an error and
  continues; the function returns \<open>nil\<close> after the loop.
\<close>

fun gmailDeleteLoop :: "(string \<Rightarrow> 'r \<Rightarrow> error option \<times> 'r) \<Rightarrow> string list \<Rightarrow> 'r \<Rightarrow> 'r" where
  "gmailDeleteLoop apiDelete [] remote = remote"
| "gmailDeleteLoop apiDelete (messageID # rest) remote =
     (case apiDelete messageID remote of
        (Some err, remote') \<Rightarrow> gmailDeleteLoop apiDelete rest remote'
      | (None, remote') \<Rightarrow> gmailDeleteLoop apiDelete rest remote')"

definition gmailClient_DeleteEmails :: "(string \<Rightarrow> 'r \<Rightarrow> error option \<times> 'r) \<Rightarrow> string
    \<Rightarrow> string list \<Rightarrow> 'r \<Rightarrow> error option \<times> 'r" where
  "gmailClient_DeleteEmails apiDelete userEmail messageIDs remote =
     (None, gmailDeleteLoop apiDelete messageIDs remote)"

text \<open>
  \<open>emailService.DeleteEmails\<close> over the in-memory email repository. \<open>gmailDelete\<close> is the
  \<open>DeleteEmails\<close> method of the service's \<open>GmailClient\<close>. The result is the returned error,
  the local store and the remote mailbox.
\<close>

fun deleteCollectLoop :: "EmailStore \<Rightarrow> string \<Rightarrow> string list \<Rightarrow> Email list \<times> string list
    \<Rightarrow> Email list \<times> string list" where
  "deleteCollectLoop emails userID [] acc = acc"
| "deleteCollectLoop emails userID (emailID # rest) (emailsToDelete, gmailIDsToDelete) =
     (case repo_FindByID emails emailID of
        Inl err \<Rightarrow> deleteCollectLoop emails userID rest (emailsToDelete, gmailIDsToDelete)
      | Inr email \<Rightarrow>
          if UserID email \<noteq> userID
          then deleteCollectLoop emails userID rest (emailsToDelete, gmailIDsToDelete)
          else deleteCollectLoop emails userID rest
                 (emailsToDelete @ [email], gmailIDsToDelete @ [GmailID email]))"

fun deleteLocalLoop :: "Email list \<Rightarrow> EmailStore \<Rightarrow> error list \<Rightarrow> error list \<times> EmailStore" where
  "deleteLocalLoop [] emails deletionErrors = (deletionErrors, emails)"
| "deleteLocalLoop (email # rest) emails deletionErrors =
     (case repo_Delete (ID email) emails of
        (Some err, emails') \<Rightarrow> deleteLocalLoop rest emails' (deletionErrors @ [err])
      | (None, emails') \<Rightarrow> deleteLocalLoop rest emails' deletionErrors)"

fun joinWith :: "string \<Rightarrow> string list \<Rightarrow> string" where
  "joinWith sep [] = []"
| "joinWith sep [s] = s"
| "joinWith sep (s # t # rest) = s @ sep @ joinWith sep (t # rest)"

definition DeleteEmails :: "(string \<Rightarrow> string list \<Rightarrow> 'r \<Rightarrow> error option \<times> 'r) \<Rightarrow> UserStore
    \<Rightarrow> string list \<Rightarrow> string \<Rightarrow> EmailStore \<times> 'r \<Rightarrow> error option \<times> EmailStore \<times> 'r" where
  "DeleteEmails gmailDelete users emailIDs userID st =
     (case st of (emails, remote) \<Rightarrow>
      (case deleteCollectLoop emails userID emailIDs ([], []) of
         (emailsToDelete, gmailIDsToDelete) \<Rightarrow>
           if length emailsToDelete = 0 then (None, emails, remote)
           else
             (case user_FindByID users userID of
                Inl err \<Rightarrow> (Some (wrap ''failed to get user'' err), emails, remote)
              | Inr user \<Rightarrow>
                  (case gmailDelete (user_Email user) gmailIDsToDelete remote of
                     (Some err, remote') \<Rightarrow>
                       (Some (wrap ''failed to delete emails from Gmail'' err), emails, remote')
                   | (None, remote') \<Rightarrow>
                       (case deleteLocalLoop emailsToDelete emails [] of
                          (deletionErrors, emails') \<Rightarrow>
                            if length deletionErrors > 0
                            then (Some (Error (''some emails failed to be deleted from database: [''
                                          @ joinWith '' '' (map msg deletionErrors) @ '']'')),
                                  emails', remote')
                            else (None, emails', remote'))))))"

section \<open>Sync engine (package service)\<close>

text \<open>
  \<open>emailService.ClassifyAndSummarizeEmail\<close>. The inference client is the pair of functions
  \<open>ai_ClassifyEmail\<close> and \<open>ai_SummarizeEmail\<close>; \<open>now\<close> is \<open>time.Now()\<close>. The function
  mutates the message it is given, so the model returns the message together with the error.
\<close>

record AIClient =
  ai_ClassifyEmail :: "string \<Rightarrow> Category list \<Rightarrow> error + string"
  ai_SummarizeEmail :: "string \<Rightarrow> error + string"

definition ClassifyAndSummarizeEmail :: "AIClient \<Rightarrow> int \<Rightarrow> Email \<Rightarrow> Category list
    \<Rightarrow> error option \<times> Email" where
  "ClassifyAndSummarizeEmail ai now email categories =
     (let categoryMap = map_of (rev (map (\<lambda>category. (Name category, cat_ID category)) categories)) in
      case ai_ClassifyEmail ai (Body email) categories of
        Inl err \<Rightarrow> (Some (wrap ''failed to classify email'' err), email)
      | Inr classifiedCategoryName \<Rightarrow>
          (case (case categoryMap classifiedCategoryName of
                   Some categoryID \<Rightarrow> Inr categoryID
                 | None \<Rightarrow>
                     (case categories of
                        first # _ \<Rightarrow> Inr (cat_ID first)
                      | [] \<Rightarrow> Inl (Error ''no categories found for classification''))) of
             Inl err \<Rightarrow> (Some err, email)
           | Inr categoryID \<Rightarrow>
               (let email = email\<lparr>CategoryID := categoryID\<rparr> in
                case ai_SummarizeEmail ai (Body email) of
                  Inl err \<Rightarrow> (Some (wrap ''failed to summarize email'' err), email)
                | Inr summary \<Rightarrow> (None, email\<lparr>Summary := summary, UpdatedAt := now\<rparr>))))"

text \<open>
  \<open>emailService.SyncEmails\<close> over the in-memory repositories. \<open>listUnread\<close> is
  \<open>gmailClient.ListUnreadEmails\<close> and \<open>archive\<close> is \<open>gmailClient.ArchiveEmail\<close> (the error
  it returns for a provider id). \<open>syncOne\<close> is the body of the goroutine started for a
  fetched message; \<open>syncLoop\<close> runs the goroutines one after the other in the order of the
  fetched list (one of the schedules of the Go program, and the only one for a single
  message) and collects what they send on \<open>errChan\<close>. \<open>createAll\<close> is the loop that follows
  \<open>wg.Wait()\<close>.
\<close>

definition syncOne :: "AIClient \<Rightarrow> (string \<Rightarrow> error option) \<Rightarrow> int \<Rightarrow> string \<Rightarrow> Category list
    \<Rightarrow> Email \<Rightarrow> EmailStore \<Rightarrow> error option \<times> Email \<times> EmailStore" where
  "syncOne ai archive now userID categories email0 emails =
     (let email = email0\<lparr>UserID := userID\<rparr> in
      case repo_FindByGmailID emails userID (GmailID email) of
        Inr existingEmail \<Rightarrow> (None, email, emails)
      | Inl _ \<Rightarrow>
          (case ClassifyAndSummarizeEmail ai now email categories of
             (Some err, email) \<Rightarrow> (Some err, email, emails)
           | (None, email) \<Rightarrow>
               (case repo_Create email emails of
                  (Some err, emails) \<Rightarrow> (Some err, email, emails)
                | (None, emails) \<Rightarrow>
                    (case archive (GmailID email) of
                       Some err \<Rightarrow> (None, email, emails)
                     | None \<Rightarrow>
                         (let email = email\<lparr>Archived := True\<rparr> in
                          (None, email, snd (repo_Update email emails)))))))"

fun syncLoop :: "AIClient \<Rightarrow> (string \<Rightarrow> error option) \<Rightarrow> int \<Rightarrow> string \<Rightarrow> Category list
    \<Rightarrow> Email list \<Rightarrow> EmailStore \<Rightarrow> error list \<times> Email list \<times> EmailStore" where
  "syncLoop ai archive now userID categories [] emails = ([], [], emails)"
| "syncLoop ai archive now userID categories (gmailEmail # rest) emails =
     (case syncOne ai archive now userID categories gmailEmail emails of
        (err, email, emails') \<Rightarrow>
          (case syncLoop ai archive now userID categories rest emails' of
             (errs, processed, emails'') \<Rightarrow>
               ((case err of Some e \<Rightarrow> [e] | None \<Rightarrow> []) @ errs, email # processed, emails'')))"

fun createAll :: "string \<Rightarrow> Email list \<Rightarrow> EmailStore \<Rightarrow> error option \<times> EmailStore" where
  "createAll uid [] emails = (None, emails)"
| "createAll uid (email # rest) emails =
     (case repo_Create (email\<lparr>UserID := uid\<rparr>) emails of
        (Some err, emails') \<Rightarrow> (Some err, emails')
      | (None, emails') \<Rightarrow> createAll uid rest emails')"

definition SyncEmails :: "AIClient \<Rightarrow> (string \<Rightarrow> error + Email list) \<Rightarrow> (string \<Rightarrow> error option)
    \<Rightarrow> int \<Rightarrow> UserStore \<Rightarrow> (error + Category list) \<Rightarrow> string \<Rightarrow> EmailStore
    \<Rightarrow> error option \<times> EmailStore" where
  "SyncEmails ai listUnread archive now users findAllCategories userID emails =
     (case user_FindByID users userID of
        Inl err \<Rightarrow> (Some (wrap ''failed to get user'' err), emails)
      | Inr user \<Rightarrow>
          (case findAllCategories of
             Inl err \<Rightarrow> (Some (wrap ''failed to get categories'' err), emails)
           | Inr categories \<Rightarrow>
               (case listUnread (user_Email user) of
                  Inl err \<Rightarrow> (Some (wrap ''failed to get emails from Gmail'' err), emails)
                | Inr gmailEmails \<Rightarrow>
                    (case syncLoop ai archive now userID categories gmailEmails emails of
                       (syncErr # _, processed, emails') \<Rightarrow>
                         (Some (wrap ''failed to sync some emails'' syncErr), emails')
                     | ([], processed, emails') \<Rightarrow> createAll (user_ID user) processed emails'))))"

section \<open>Message store (package postgres)\<close>

text \<open>
  The table \<open>emails\<close> of \<open>InitializeDatabase\<close> is the list of its rows. Its constraints
  are the primary key \<open>id\<close>, \<open>gmail_id ... UNIQUE\<close>, and the \<open>VARCHAR(255)\<close> columns
  \<open>id\<close>, \<open>user_id\<close>, \<open>gmail_id\<close> and \<open>category_id\<close>; a statement that violates one
  fails and leaves the table as it was. \<open>now\<close> is the value of \<open>NOW()\<close>.

  \<open>pg_Create\<close> is the statement of \<open>PostgresEmailRepository.Create\<close>,
  \<open>INSERT ... ON CONFLICT (gmail_id) DO UPDATE SET user_id = EXCLUDED.user_id, ...\<close>:
  a row with the same \<open>gmail_id\<close> is updated in place (its \<open>id\<close>, \<open>gmail_id\<close> and
  \<open>created_at\<close> stay); otherwise the row is inserted, which fails on a row with the same
  \<open>id\<close>.
\<close>

type_synonym EmailTable = "Email list"

definition fitsColumns :: "Email \<Rightarrow> bool" where
  "fitsColumns email =
     (length (ID email) \<le> 255 \<and> length (UserID email) \<le> 255 \<and>
      length (GmailID email) \<le> 255 \<and> length (CategoryID email) \<le> 255)"

definition onConflictUpdate :: "int \<Rightarrow> Email \<Rightarrow> Email \<Rightarrow> Email" where
  "onConflictUpdate now excluded row =
     row\<lparr>UserID := UserID excluded, From := From excluded, Subject := Subject excluded,
         Body := Body excluded, Summary := Summary excluded,
         CategoryID := CategoryID excluded, ReceivedAt := ReceivedAt excluded,
         Archived := Archived excluded, UpdatedAt := now\<rparr>"

definition pg_Create :: "int \<Rightarrow> Email \<Rightarrow> EmailTable \<Rightarrow> error option \<times> EmailTable" where
  "pg_Create now email rows =
     (if \<not> fitsColumns email
      then (Some (Error ''pq: value too long for type character varying(255)''), rows)
      else if list_ex (\<lambda>row. GmailID row = GmailID email) rows
      then (None, map (\<lambda>row. if GmailID row = GmailID email
                               then onConflictUpdate now email row else row) rows)
      else if list_ex (\<lambda>row. ID row = ID email) rows
      then (Some (Error ''pq: duplicate key value violates unique constraint emails_pkey''), rows)
      else (None, rows @ [email]))"

definition pg_Update :: "int \<Rightarrow> Email \<Rightarrow> EmailTable \<Rightarrow> error option \<times> EmailTable" where
  \<comment> \<open>\<open>UPDATE emails SET from_email, subject, body, summary, category_id, archived,
      updated_at = NOW() WHERE id = $7\<close>\<close>
  "pg_Update now email rows =
     (if list_ex (\<lambda>row. ID row = ID email) rows \<and> length (CategoryID email) > 255
      then (Some (Error ''pq: value too long for type character varying(255)''), rows)
      else (None, map (\<lambda>row. if ID row = ID email
                               then row\<lparr>From := From email, Subject := Subject email,
                                        Body := Body email, Summary := Summary email,
                                        CategoryID := CategoryID email,
                                        Archived := Archived email, UpdatedAt := now\<rparr>
                               else row) rows))"

definition pg_Delete :: "string \<Rightarrow> EmailTable \<Rightarrow> error option \<times> EmailTable" where
  \<comment> \<open>\<open>DELETE FROM emails WHERE id = $1\<close>\<close>
  "pg_Delete ident rows = (None, filter (\<lambda>row. ID row \<noteq> ident) rows)"

definition pg_FindByGmailID :: "EmailTable \<Rightarrow> string \<Rightarrow> string \<Rightarrow> error + Email" where
  \<comment> \<open>\<open>SELECT ... FROM emails WHERE user_id = $1 AND gmail_id = $2\<close>\<close>
  "pg_FindByGmailID rows userID gmailID =
     (case find (\<lambda>row. UserID row = userID \<and> GmailID row = gmailID) rows of
        None \<Rightarrow> Inl (Error ''email not found'')
      | Some row \<Rightarrow> Inr row)"

text \<open>The statements that write the table, and the tables they reach from the empty one.\<close>

datatype pg_op = OpCreate int Email | OpUpdate int Email | OpDelete string

fun pg_step :: "pg_op \<Rightarrow> EmailTable \<Rightarrow> EmailTable" where
  "pg_step (OpCreate now email) rows = snd (pg_Create now email rows)"
| "pg_step (OpUpdate now email) rows = snd (pg_Update now email rows)"
| "pg_step (OpDelete ident) rows = snd (pg_Delete ident rows)"

definition pg_run :: "pg_op list \<Rightarrow> EmailTable" where
  "pg_run ops = fold pg_step ops []"

section \<open>Mailbox client (package gmail)\<close>

subsection \<open>Plain text to HTML\<close>

definition escapeChar :: "char \<Rightarrow> string" where
  \<comment> \<open>the replacements of \<open>html.EscapeString\<close>\<close>
  "escapeChar c =
     (if c = CHR ''&'' then ''&amp;''
      else if c = CHR 0x27 then ''&#39;''
      else if c = CHR ''<'' then ''&lt;''
      else if c = CHR ''>'' then ''&gt;''
      else if c = CHR 0x22 then ''&#34;''
      else [c])"

definition EscapeString :: "string \<Rightarrow> string" where
  "EscapeString s = concat (map escapeChar s)"

fun Split :: "string \<Rightarrow> char \<Rightarrow> string list" where
  \<comment> \<open>\<open>strings.Split(s, sep)\<close> for a separator of one byte\<close>
  "Split [] sep = [[]]"
| "Split (c # cs) sep =
     (if c = sep then [] # Split cs sep
      else (case Split cs sep of
              line # lines \<Rightarrow> (c # line) # lines
            | [] \<Rightarrow> [[c]]))"

text \<open>
  \<open>gmailClient.textToHtml\<close>: \<open>textLoop\<close> is the \<open>for i, line := range lines\<close> loop, with
  the index \<open>i\<close> and \<open>len(lines)\<close>.
\<close>

fun textLoop :: "nat \<Rightarrow> nat \<Rightarrow> string list \<Rightarrow> string \<Rightarrow> string" where
  "textLoop i n [] result = result"
| "textLoop i n (line0 # rest) result =
     (let line = TrimSpace line0 in
      if line \<noteq> [] then textLoop (i + 1) n rest (result @ ''<p>'' @ EscapeString line @ ''</p>'')
      else if i > 0 \<and> i < n - 1 then textLoop (i + 1) n rest (result @ ''<p>&nbsp;</p>'')
      else textLoop (i + 1) n rest result)"

definition textToHtml :: "string \<Rightarrow> string" where
  "textToHtml text = (let lines = Split text (CHR 0x0A) in textLoop 0 (length lines) lines [])"

subsection \<open>Body decoding\<close>

text \<open>
  \<open>base64.URLEncoding.DecodeString\<close>: the URL-safe alphabet with padding; carriage returns
  and line feeds are ignored; \<open>None\<close> is the decoding error.
\<close>

definition b64val :: "char \<Rightarrow> nat option" where
  "b64val c =
     (let n = (of_char c :: nat) in
      if 65 \<le> n \<and> n \<le> 90 then Some (n - 65)
      else if 97 \<le> n \<and> n \<le> 122 then Some (n - 71)
      else if 48 \<le> n \<and> n \<le> 57 then Some (n + 4)
      else if c = CHR ''-'' then Some 62
      else if c = CHR ''_'' then Some 63
      else None)"

definition quantum3 :: "char \<Rightarrow> char \<Rightarrow> char \<Rightarrow> char \<Rightarrow> string option" where
  "quantum3 a b c d =
     (case (b64val a, b64val b, b64val c, b64val d) of
        (Some w, Some x, Some y, Some z) \<Rightarrow>
          (let v = ((w * 64 + x) * 64 + y) * 64 + z in
           Some [char_of (v div 65536), char_of ((v div 256) mod 256), char_of (v mod 256)])
      | _ \<Rightarrow> None)"

definition quantum2 :: "char \<Rightarrow> char \<Rightarrow> char \<Rightarrow> string option" where
  "quantum2 a b c =
     (case (b64val a, b64val b, b64val c) of
        (Some w, Some x, Some y) \<Rightarrow>
          (let v = (w * 64 + x) * 64 + y in
           Some [char_of (v div 1024), char_of ((v div 4) mod 256)])
      | _ \<Rightarrow> None)"

definition quantum1 :: "char \<Rightarrow> char \<Rightarrow> string option" where
  "quantum1 a b =
     (case (b64val a, b64val b) of
        (Some w, Some x) \<Rightarrow> Some [char_of ((w * 64 + x) div 16)]
      | _ \<Rightarrow> None)"

fun decodeQuanta :: "string \<Rightarrow> string option" where
  "decodeQuanta [] = Some []"
| "decodeQuanta [a, b, c, d] =
     (if c = CHR ''='' \<and> d = CHR ''='' then quantum1 a b
      else if d = CHR ''='' then quantum2 a b c
      else quantum3 a b c d)"
| "decodeQuanta (a # b # c # d # rest) =
     (case quantum3 a b c d of
        None \<Rightarrow> None
      | Some bytes \<Rightarrow>
          (case decodeQuanta rest of
             None \<Rightarrow> None
           | Some tail \<Rightarrow> Some (bytes @ tail)))"
| "decodeQuanta _ = None"

definition DecodeString :: "string \<Rightarrow> string option" where
  "DecodeString s = decodeQuanta (filter (\<lambda>c. c \<noteq> CHR 0x0D \<and> c \<noteq> CHR 0x0A) s)"

text \<open>
  \<open>gmail.MessagePart\<close> with the fields the client reads: the MIME type, the headers, the
  data of the body (\<open>part.Body.Data\<close>; every part of an API response carries a body) and
  the sub-parts. A run-time panic of the Go code is the result \<open>Panic\<close>.
\<close>

datatype MessagePart =
  MessagePart (MimeType: string) (Headers: "(string \<times> string) list") (Data: string)
    (Parts: "MessagePart list")

datatype 'a ret = Panic | Ret 'a

fun plainLoop :: "MessagePart list \<Rightarrow> string option" where
  "plainLoop [] = None"
| "plainLoop (part # rest) =
     (if MimeType part = ''text/plain'' \<and> Data part \<noteq> []
      then (case DecodeString (Data part) of
              None \<Rightarrow> plainLoop rest
            | Some decoded \<Rightarrow> Some decoded)
      else plainLoop rest)"

fun firstBodyLoop :: "MessagePart list \<Rightarrow> string option" where
  "firstBodyLoop [] = None"
| "firstBodyLoop (part # rest) =
     (if Data part \<noteq> []
      then (case DecodeString (Data part) of
              None \<Rightarrow> firstBodyLoop rest
            | Some decoded \<Rightarrow> Some decoded)
      else firstBodyLoop rest)"

definition extractBodyAsText :: "MessagePart \<Rightarrow> string" where
  "extractBodyAsText payload =
     (if Data payload \<noteq> []
      then (case DecodeString (Data payload) of None \<Rightarrow> [] | Some decoded \<Rightarrow> decoded)
      else (case plainLoop (Parts payload) of
              Some decoded \<Rightarrow> decoded
            | None \<Rightarrow>
                (case firstBodyLoop (Parts payload) of
                   Some decoded \<Rightarrow> decoded
                 | None \<Rightarrow> [])))"

text \<open>
  \<open>gmailClient.extractMultipartBody\<close>: \<open>multipartLoop\<close> is the loop over the parts with
  the variables \<open>htmlBody\<close> and \<open>textBody\<close>, followed by the code after the loop. The last
  line, \<open>g.extractBodyAsText(&gmail.MessagePart{Parts: parts})\<close>, reads \<open>payload.Body.Data\<close>
  of a part whose \<open>Body\<close> pointer is nil: it panics.
\<close>

fun multipartLoop :: "MessagePart list \<Rightarrow> string \<Rightarrow> string \<Rightarrow> string ret" where
  "multipartLoop [] htmlBody textBody =
     (if htmlBody \<noteq> [] then Ret htmlBody
      else if textBody \<noteq> [] then Ret (textToHtml textBody)
      else Panic)"
| "multipartLoop (MessagePart mime hs d ps # rest) htmlBody textBody =
     (if mime = ''text/html'' \<and> d \<noteq> []
      then (case DecodeString d of
              None \<Rightarrow> multipartLoop rest htmlBody textBody
            | Some decoded \<Rightarrow> multipartLoop rest decoded textBody)
      else if mime = ''text/plain'' \<and> d \<noteq> []
      then (case DecodeString d of
              None \<Rightarrow> multipartLoop rest htmlBody textBody
            | Some decoded \<Rightarrow> multipartLoop rest htmlBody decoded)
      else if length ps > 0
      then (case multipartLoop ps [] [] of
              Panic \<Rightarrow> Panic
            | Ret nestedBody \<Rightarrow>
                if nestedBody \<noteq> [] \<and> htmlBody = [] then Ret nestedBody
                else multipartLoop rest htmlBody textBody)
      else multipartLoop rest htmlBody textBody)"

definition extractMultipartBody :: "MessagePart list \<Rightarrow> string ret" where
  "extractMultipartBody parts = multipartLoop parts [] []"

definition extractBody :: "MessagePart \<Rightarrow> string ret" where
  "extractBody payload =
     (if length (Parts payload) > 0 then extractMultipartBody (Parts payload)
      else if MimeType payload = ''text/html'' \<and> Data payload \<noteq> []
      then (case DecodeString (Data payload) of
              None \<Rightarrow> Ret (extractBodyAsText payload)
            | Some decoded \<Rightarrow> Ret decoded)
      else Ret (extractBodyAsText payload))"

text \<open>A part is a decodable HTML part when the first branch of the loop takes its data.\<close>

definition decodableHtml :: "MessagePart \<Rightarrow> bool" where
  "decodableHtml part =
     (MimeType part = ''text/html'' \<and> Data part \<noteq> [] \<and> DecodeString (Data part) \<noteq> None)"

subsection \<open>Fetching with a cursor\<close>

text \<open>
  \<open>gmailClient.SyncEmails\<close>. The API is the pair \<open>apiList\<close> (the ids of
  \<open>Users.Messages.List(user).MaxResults(n).Q("").Do()\<close>) and \<open>apiGet\<close>
  (\<open>Users.Messages.Get(user, id).Format("full").Do()\<close>). \<open>model.NewEmail\<close> draws a UUID and
  reads the clock; \<open>newUUID k\<close> and \<open>clock k\<close> are the values it gets for the message built
  after \<open>k\<close> others. \<open>envMaxFetch\<close> is the value of \<open>MAX_FETCH_EMAILS\<close>.
\<close>

record Message =
  Snippet :: string
  Payload :: MessagePart
  InternalDate :: int

record GmailAPI =
  apiList :: "int \<Rightarrow> error + string list"
  apiGet :: "string \<Rightarrow> error + Message"

definition NewEmail :: "string \<Rightarrow> int \<Rightarrow> string \<Rightarrow> string \<Rightarrow> string \<Rightarrow> string \<Rightarrow> string \<Rightarrow> int
    \<Rightarrow> Email" where
  "NewEmail uuid now userID gmailID sender subject body receivedAt =
     \<lparr>ID = uuid, UserID = userID, GmailID = gmailID, From = sender, Subject = subject,
      Body = body, Summary = '''', CategoryID = '''', ReceivedAt = receivedAt,
      Archived = False, CreatedAt = now, UpdatedAt = now\<rparr>"

fun headerLoop :: "(string \<times> string) list \<Rightarrow> string \<times> string \<Rightarrow> string \<times> string" where
  "headerLoop [] (subject, sender) = (subject, sender)"
| "headerLoop ((name, v) # rest) (subject, sender) =
     (if name = ''Subject'' then headerLoop rest (v, sender)
      else if name = ''From'' then headerLoop rest (subject, v)
      else headerLoop rest (subject, sender))"

definition quot :: "int \<Rightarrow> int \<Rightarrow> int" where
  \<comment> \<open>Go's integer division, which truncates towards zero\<close>
  "quot a b = sgn a * sgn b * (\<bar>a\<bar> div \<bar>b\<bar>)"

definition toEmail :: "string \<Rightarrow> int \<Rightarrow> string \<Rightarrow> Message \<Rightarrow> string \<Rightarrow> Email" where
  "toEmail uuid now msgId message body =
     (case headerLoop (Headers (Payload message)) (Snippet message, '''') of
        (subject, sender) \<Rightarrow>
          NewEmail uuid now '''' msgId sender subject body (quot (InternalDate message) 1000))"

fun fetchLoop :: "GmailAPI \<Rightarrow> (nat \<Rightarrow> string) \<Rightarrow> (nat \<Rightarrow> int) \<Rightarrow> string \<Rightarrow> string list \<Rightarrow> bool
    \<Rightarrow> Email list \<Rightarrow> Email list ret" where
  "fetchLoop api newUUID clock afterEmailID [] shouldStartCollecting emails = Ret emails"
| "fetchLoop api newUUID clock afterEmailID (msgId # rest) shouldStartCollecting emails =
     (if afterEmailID \<noteq> [] \<and> msgId = afterEmailID
      then fetchLoop api newUUID clock afterEmailID rest True emails
      else if afterEmailID \<noteq> [] \<and> \<not> shouldStartCollecting
      then fetchLoop api newUUID clock afterEmailID rest shouldStartCollecting emails
      else (case apiGet api msgId of
              Inl err \<Rightarrow> fetchLoop api newUUID clock afterEmailID rest shouldStartCollecting emails
            | Inr message \<Rightarrow>
                (case extractBody (Payload message) of
                   Panic \<Rightarrow> Panic
                 | Ret body \<Rightarrow>
                     fetchLoop api newUUID clock afterEmailID rest shouldStartCollecting
                       (emails @ [toEmail (newUUID (length emails)) (clock (length emails))
                                    msgId message body]))))"

definition gmailClient_SyncEmails :: "GmailAPI \<Rightarrow> int \<Rightarrow> (nat \<Rightarrow> string) \<Rightarrow> (nat \<Rightarrow> int) \<Rightarrow> int
    \<Rightarrow> string \<Rightarrow> (error + Email list) ret" where
  "gmailClient_SyncEmails api envMaxFetch newUUID clock maxResults0 afterEmailID =
     (let maxResults = (if maxResults0 \<le> 0 then envMaxFetch else maxResults0) in
      case apiList api maxResults of
        Inl err \<Rightarrow> Ret (Inl (wrap ''failed to list messages'' err))
      | Inr messages \<Rightarrow>
          (case fetchLoop api newUUID clock afterEmailID messages (afterEmailID = []) [] of
             Panic \<Rightarrow> Panic
           | Ret emails \<Rightarrow> Ret (Inr emails)))"

text \<open>
  One iteration of the loop of \<open>textToHtml\<close> in closed form: what the line at index \<open>i\<close> of \<open>n\<close>
  lines adds to the result.
\<close>

definition renderLine :: "nat \<Rightarrow> nat \<Rightarrow> string \<Rightarrow> string" where
  "renderLine n i line0 =
     (if TrimSpace line0 \<noteq> [] then ''<p>'' @ EscapeString (TrimSpace line0) @ ''</p>''
      else if 0 < i \<and> i < n - 1 then ''<p>&nbsp;</p>'' else [])"

text \<open>
  For a listed message: \<open>getSucceeds\<close> says that its full fetch returns the message;
  \<open>bodyDecodes\<close> says that decoding its body, if it is fetched, does not panic;
  \<open>built api newUUID clock k msgId email\<close> says that \<open>email\<close> is the message \<open>SyncEmails\<close>
  builds for \<open>msgId\<close> as its \<open>k\<close>-th result.
\<close>

definition getSucceeds :: "GmailAPI \<Rightarrow> string \<Rightarrow> bool" where
  "getSucceeds api msgId = (case apiGet api msgId of Inl err \<Rightarrow> False | Inr message \<Rightarrow> True)"

definition bodyDecodes :: "GmailAPI \<Rightarrow> string \<Rightarrow> bool" where
  "bodyDecodes api msgId =
     (case apiGet api msgId of
        Inl err \<Rightarrow> True
      | Inr message \<Rightarrow> (case extractBody (Payload message) of Panic \<Rightarrow> False | Ret body \<Rightarrow> True))"

definition built :: "GmailAPI \<Rightarrow> (nat \<Rightarrow> string) \<Rightarrow> (nat \<Rightarrow> int) \<Rightarrow> nat \<Rightarrow> string \<Rightarrow> Email \<Rightarrow> bool" where
  "built api newUUID clock k msgId email =
     (case apiGet api msgId of
        Inl err \<Rightarrow> False
      | Inr message \<Rightarrow>
          (case extractBody (Payload message) of
             Panic \<Rightarrow> False
           | Ret body \<Rightarrow> email = toEmail (newUUID k) (clock k) msgId message body))"

section \<open>Realtime broadcaster (package sse)\<close>

text \<open>
  \<open>SSEManager\<close>: \<open>clients\<close> is the registry \<open>map[string]map[chan []byte]bool\<close>. A channel is
  named by a number; \<open>nextChan\<close> is the name \<open>make(chan []byte, 10)\<close> gives to the next
  channel, \<open>closed\<close> holds the channels that were closed, and \<open>queues\<close> is the buffer of each
  channel (capacity 10). The inner map of an owner is the list of its channels; the order
  of the list stands for the unspecified iteration order of the Go map.

  The mutex makes every method atomic, so a method is a function from state to state. A
  method that panics (closing a closed channel, sending on a closed channel) stops where it
  is: what it wrote before stays written, the deferred \<open>Unlock\<close> runs, and the server goes
  on, since \<open>main\<close> installs \<open>middleware.Recover()\<close>. The result \<open>Panicked s\<close> carries the
  manager as the panic leaves it.
\<close>

datatype 'a outcome = Returned 'a | Panicked 'a

fun stateOf :: "'a outcome \<Rightarrow> 'a" where
  "stateOf (Returned s) = s"
| "stateOf (Panicked s) = s"

record SSEManager =
  clients :: "string \<rightharpoonup> nat list"
  closed :: "nat set"
  queues :: "nat \<Rightarrow> string list"
  nextChan :: nat


definition AddClient :: "string \<Rightarrow> SSEManager \<Rightarrow> nat \<times> SSEManager" where
  "AddClient userID s =
     (let userClients = (case clients s userID of None \<Rightarrow> [] | Some existing \<Rightarrow> existing);
          channel = nextChan s
      in (channel,
          s\<lparr>clients := (clients s)(userID \<mapsto>
                 (if channel \<in> set userClients then userClients else userClients @ [channel])),
            nextChan := Suc (nextChan s)\<rparr>))"

text \<open>
  \<open>RemoveClient\<close>: \<open>delete(userClients, channel)\<close> writes the inner map, which the registry
  shares, before \<open>close(channel)\<close> runs; when \<open>close\<close> panics, the test of
  \<open>len(userClients) == 0\<close> and \<open>delete(s.clients, userID)\<close> are not reached.
\<close>

definition RemoveClient :: "string \<Rightarrow> nat \<Rightarrow> SSEManager \<Rightarrow> SSEManager outcome" where
  "RemoveClient userID channel s =
     (case clients s userID of
        None \<Rightarrow> Returned s
      | Some existing \<Rightarrow>
          (let userClients = removeAll channel existing;
               s1 = s\<lparr>clients := (clients s)(userID \<mapsto> userClients)\<rparr>
           in if channel \<in> closed s then Panicked s1
              else
                (let s2 = s1\<lparr>closed := insert channel (closed s1)\<rparr> in
                 if length userClients = 0
                 then Returned (s2\<lparr>clients := (clients s2)(userID := None)\<rparr>)
                 else Returned s2)))"

text \<open>
  \<open>BroadcastEmailToUser\<close> and \<open>BroadcastToUser\<close> differ in the envelope they marshal;
  \<open>payload\<close> is the result of \<open>json.Marshal\<close> (\<open>None\<close> when it fails). \<open>sendLoop\<close> is the
  loop over the owner's channels. A channel whose buffer is full does not take the event
  within the five seconds unless its reader makes room (\<open>receive\<close>, the read of the HTTP
  handler); here the event is dropped for it.
\<close>

fun sendLoop :: "string \<Rightarrow> nat list \<Rightarrow> SSEManager \<Rightarrow> SSEManager outcome" where
  "sendLoop jsonData [] s = Returned s"
| "sendLoop jsonData (channel # rest) s =
     (if channel \<in> closed s then Panicked s
      else if length (queues s channel) < 10
      then sendLoop jsonData rest
             (s\<lparr>queues := (queues s)(channel := queues s channel @ [jsonData])\<rparr>)
      else sendLoop jsonData rest s)"

definition deliver :: "string \<Rightarrow> string option \<Rightarrow> SSEManager \<Rightarrow> SSEManager outcome" where
  "deliver userID payload s =
     (case clients s userID of
        None \<Rightarrow> Returned s
      | Some userClients \<Rightarrow>
          (case payload of
             None \<Rightarrow> Returned s
           | Some jsonData \<Rightarrow> sendLoop jsonData userClients s))"

definition receive :: "nat \<Rightarrow> SSEManager \<Rightarrow> SSEManager" where
  "receive channel s = s\<lparr>queues := (queues s)(channel := tl (queues s channel))\<rparr>"


text \<open>
  Sequences of operations on a manager. After a panic the next operation works on the
  manager the panic left.
\<close>

datatype sse_op =
  Register string | Unregister string nat | Deliver string "string option" | Receive nat

fun sse_step :: "sse_op \<Rightarrow> SSEManager \<Rightarrow> SSEManager outcome" where
  "sse_step (Register userID) s = Returned (snd (AddClient userID s))"
| "sse_step (Unregister userID channel) s = RemoveClient userID channel s"
| "sse_step (Deliver userID payload) s = deliver userID payload s"
| "sse_step (Receive channel) s = Returned (receive channel s)"


definition nonEmptySets :: "SSEManager \<Rightarrow> bool" where
  \<comment> \<open>every owner in the registry has at least one sink\<close>
  "nonEmptySets s = (\<forall>userID userClients. clients s userID = Some userClients \<longrightarrow> userClients \<noteq> [])"

section \<open>Data for the evaluations\<close>

text \<open>
  A user, a category, an inference client that answers as the mock of the repository's tests
  does, and the message \<open>NewEmail("", gmailID, ...)\<close> builds for a provider message, with
  the local id the call draws.
\<close>

definition user1 :: User where
  "user1 = \<lparr>user_ID = ''u1'', GoogleID = ''google_123'', user_Email = ''test@example.com'',
             user_Name = ''Test User'', AccessToken = ''access_token'',
             RefreshToken = ''refresh_token''\<rparr>"

definition work :: Category where
  "work = \<lparr>cat_ID = ''c1'', Name = ''Work'', Description = ''Work related emails''\<rparr>"

definition ai1 :: AIClient where
  "ai1 = \<lparr>ai_ClassifyEmail = (\<lambda>body categories. Inr ''Work''),
           ai_SummarizeEmail = (\<lambda>body. Inr ''Summary of the email'')\<rparr>"

definition fetched :: "string \<Rightarrow> string \<Rightarrow> Email" where
  "fetched localID gmailID =
     \<lparr>ID = localID, UserID = '''', GmailID = gmailID, From = ''sender@example.com'',
      Subject = ''Test Subject'', Body = ''Test body content'', Summary = '''',
      CategoryID = '''', ReceivedAt = 1700000000, Archived = False,
      CreatedAt = 1700000100, UpdatedAt = 1700000100\<rparr>"

definition stored :: "string \<Rightarrow> string \<Rightarrow> string \<Rightarrow> Email" where
  "stored localID userID gmailID = (fetched localID gmailID)\<lparr>UserID := userID\<rparr>"

text \<open>A mailbox page of five messages, each a plain-text message with two headers.\<close>

definition api5 :: GmailAPI where
  "api5 = \<lparr>apiList = (\<lambda>maxResults. Inr [''m1'', ''m2'', ''m3'', ''m4'', ''m5'']),
            apiGet = (\<lambda>msgId. Inr \<lparr>Snippet = ''hi'',
                                    Payload = MessagePart ''text/plain''
                                      [(''Subject'', ''Hello''), (''From'', ''sender@example.com'')]
                                      ''aGk='' [],
                                    InternalDate = 1700000000123\<rparr>)\<rparr>"

definition uuid5 :: "nat \<Rightarrow> string" where
  "uuid5 k = ''uuid-'' @ replicate k (CHR ''x'')"

definition clock5 :: "nat \<Rightarrow> int" where
  "clock5 k = 1700000300 + int k"

text \<open>
  A page of five messages of which the fourth cannot be fetched.
\<close>

definition api5b :: GmailAPI where
  "api5b = api5\<lparr>apiGet := (\<lambda>msgId. if msgId = ''m4''
                                     then Inl (Error ''googleapi: Error 500: Backend Error'')
                                     else apiGet api5 msgId)\<rparr>"



section \<open>Properties of the string functions\<close>

lemma Contains_sublist: "Contains s sub = sublist sub s"
proof (induction s)
  case Nil
  show ?case by simp
next
  case (Cons c cs)
  show ?case by (simp add: Cons.IH sublist_Cons_right)
qed

section \<open>Classification fallback order\<close>

lemma exactLoop_find: "exactLoop r cs = find (\<lambda>c. ToLower (TrimSpace c) = r) cs"
  by (induction cs) simp_all

lemma partialLoop_find:
  "partialLoop r cs =
     find (\<lambda>c. Contains r (ToLower (TrimSpace c)) \<or> Contains (ToLower (TrimSpace c)) r) cs"
  by (induction cs) (simp_all add: Let_def)

lemma find_firstWith: "find P xs = Some x \<Longrightarrow> firstWith P xs x"
  unfolding firstWith_def find_Some_iff by blast

lemma firstWith_unique: "firstWith P xs x \<Longrightarrow> firstWith P xs y \<Longrightarrow> x = y"
  unfolding firstWith_def by (metis linorder_neqE_nat)

lemma findBestCategoryMatch_examples:
  "findBestCategoryMatch ''work'' [''Work'', ''Personal''] = ''Work''"
  "findBestCategoryMatch ''definitely work related'' [''Work'', ''Personal''] = ''Work''"
  "findBestCategoryMatch ''Unrelated'' [''Work'', ''Personal''] = ''Work''"
  "findBestCategoryMatch ''personal stuff'' [''Work'', ''Personal''] = ''Personal''"
  by (simp_all add: findBestCategoryMatch_def ToLower_def TrimSpace_def isSpace_def lowerChar_def)

text \<open>
  Claim C4. For a non-empty category list and any answer of the model: if some name equals
  the answer (both trimmed and lower-cased), the result is the first such name; otherwise, if
  some name contains the answer or is contained in it, the result is the first such name;
  otherwise the result is the first category of the list. \<open>ClassifyEmail\<close> returns exactly
  this resolution of the provider's answer.
\<close>

theorem findBestCategoryMatch_order:
  assumes "categories \<noteq> []"
  shows "((\<exists>c \<in> set categories. exactMatch response c) \<longrightarrow>
            firstWith (exactMatch response) categories
              (findBestCategoryMatch response categories)) \<and>
         ((\<forall>c \<in> set categories. \<not> exactMatch response c) \<and>
          (\<exists>c \<in> set categories. substringMatch response c) \<longrightarrow>
            firstWith (substringMatch response) categories
              (findBestCategoryMatch response categories)) \<and>
         ((\<forall>c \<in> set categories. \<not> exactMatch response c \<and> \<not> substringMatch response c) \<longrightarrow>
            findBestCategoryMatch response categories = categories ! 0) \<and>
         (map Name cats = categories \<longrightarrow>
            ClassifyEmail (Inr response) cats = Inr (findBestCategoryMatch response categories))"
proof -
  let ?r = "ToLower (TrimSpace response)"
  have ex: "exactLoop ?r categories = find (exactMatch response) categories"
    by (simp add: exactLoop_find exactMatch_def[abs_def])
  have pa: "partialLoop ?r categories = find (substringMatch response) categories"
    by (simp add: partialLoop_find substringMatch_def[abs_def] Contains_sublist disj_commute)
  have 1: "firstWith (exactMatch response) categories (findBestCategoryMatch response categories)"
    if "\<exists>c \<in> set categories. exactMatch response c"
  proof -
    from that obtain x where x: "find (exactMatch response) categories = Some x"
      by (cases "find (exactMatch response) categories") (auto simp: find_None_iff)
    then show ?thesis
      using find_firstWith[OF x] by (simp add: findBestCategoryMatch_def ex)
  qed
  have 2: "firstWith (substringMatch response) categories
             (findBestCategoryMatch response categories)"
    if "\<forall>c \<in> set categories. \<not> exactMatch response c"
      "\<exists>c \<in> set categories. substringMatch response c"
  proof -
    from that(1) have n: "find (exactMatch response) categories = None"
      by (simp add: find_None_iff)
    from that(2) obtain x where x: "find (substringMatch response) categories = Some x"
      by (cases "find (substringMatch response) categories") (auto simp: find_None_iff)
    then show ?thesis
      using find_firstWith[OF x] by (simp add: findBestCategoryMatch_def ex pa n)
  qed
  have 3: "findBestCategoryMatch response categories = categories ! 0"
    if "\<forall>c \<in> set categories. \<not> exactMatch response c \<and> \<not> substringMatch response c"
  proof -
    from that have "find (exactMatch response) categories = None"
      "find (substringMatch response) categories = None"
      by (simp_all add: find_None_iff)
    then have "findBestCategoryMatch response categories =
        (case categories of first # _ \<Rightarrow> first | [] \<Rightarrow> '''')"
      by (simp add: findBestCategoryMatch_def ex pa)
    then show ?thesis using assms
      by (cases categories) simp_all
  qed
  have 4: "ClassifyEmail (Inr response) cats = Inr (findBestCategoryMatch response categories)"
    if "map Name cats = categories"
    using that by (simp add: ClassifyEmail_def)
  from 1 2 3 4 show ?thesis by blast
qed

theorem findBestCategoryMatch_order_witness:
  "[''Work'', ''Personal''] \<noteq> [] \<and>
   exactMatch ''work'' ''Work'' \<and>
   firstWith (exactMatch ''work'') [''Work'', ''Personal'']
     (findBestCategoryMatch ''work'' [''Work'', ''Personal'']) \<and>
   \<not> exactMatch ''definitely work related'' ''Work'' \<and>
   \<not> exactMatch ''definitely work related'' ''Personal'' \<and>
   substringMatch ''definitely work related'' ''Work'' \<and>
   firstWith (substringMatch ''definitely work related'') [''Work'', ''Personal'']
     (findBestCategoryMatch ''definitely work related'' [''Work'', ''Personal'']) \<and>
   \<not> exactMatch ''Unrelated'' ''Work'' \<and> \<not> exactMatch ''Unrelated'' ''Personal'' \<and>
   \<not> substringMatch ''Unrelated'' ''Work'' \<and> \<not> substringMatch ''Unrelated'' ''Personal'' \<and>
   findBestCategoryMatch ''Unrelated'' [''Work'', ''Personal''] = [''Work'', ''Personal''] ! 0 \<and>
   ClassifyEmail (Inr ''Unrelated'')
     [\<lparr>cat_ID = ''c1'', Name = ''Work'', Description = ''job''\<rparr>,
      \<lparr>cat_ID = ''c2'', Name = ''Personal'', Description = ''home''\<rparr>]
     = Inr (findBestCategoryMatch ''Unrelated'' [''Work'', ''Personal''])"
proof -
  note ev = exactMatch_def substringMatch_def Contains_sublist[symmetric]
    ToLower_def TrimSpace_def isSpace_def lowerChar_def
  have ne: "[''Work'', ''Personal''] \<noteq> []" by simp
  have e: "exactMatch ''work'' ''Work''" by (simp add: ev)
  have ne2: "\<not> exactMatch ''definitely work related'' ''Work''"
    "\<not> exactMatch ''definitely work related'' ''Personal''"
    by (simp_all add: ev)
  have s2: "substringMatch ''definitely work related'' ''Work''" by (simp add: ev)
  have n3: "\<not> exactMatch ''Unrelated'' ''Work''" "\<not> exactMatch ''Unrelated'' ''Personal''"
    "\<not> substringMatch ''Unrelated'' ''Work''" "\<not> substringMatch ''Unrelated'' ''Personal''"
    by (simp_all add: ev)
  have m: "map Name [\<lparr>cat_ID = ''c1'', Name = ''Work'', Description = ''job''\<rparr>,
             \<lparr>cat_ID = ''c2'', Name = ''Personal'', Description = ''home''\<rparr>]
     = [''Work'', ''Personal'']" by simp
  have a: "firstWith (exactMatch ''work'') [''Work'', ''Personal'']
     (findBestCategoryMatch ''work'' [''Work'', ''Personal''])"
    using findBestCategoryMatch_order[OF ne, of "''work''"] e by simp
  have b: "firstWith (substringMatch ''definitely work related'') [''Work'', ''Personal'']
     (findBestCategoryMatch ''definitely work related'' [''Work'', ''Personal''])"
    using findBestCategoryMatch_order[OF ne, of "''definitely work related''"] ne2 s2 by simp
  have c: "findBestCategoryMatch ''Unrelated'' [''Work'', ''Personal'']
             = [''Work'', ''Personal''] ! 0
           \<and> ClassifyEmail (Inr ''Unrelated'')
     [\<lparr>cat_ID = ''c1'', Name = ''Work'', Description = ''job''\<rparr>,
      \<lparr>cat_ID = ''c2'', Name = ''Personal'', Description = ''home''\<rparr>]
     = Inr (findBestCategoryMatch ''Unrelated'' [''Work'', ''Personal''])"
    using findBestCategoryMatch_order[OF ne, of "''Unrelated''"
        "[\<lparr>cat_ID = ''c1'', Name = ''Work'', Description = ''job''\<rparr>,
          \<lparr>cat_ID = ''c2'', Name = ''Personal'', Description = ''home''\<rparr>]"] n3 m
    by simp
  from ne e ne2 s2 n3 a b c show ?thesis by blast
qed

section \<open>Unsubscribe automation: candidate order and results\<close>

lemma tryURLs_closed_form:
  "tryURLs handle urls calls =
     (if dropWhile (\<lambda>u. handle u \<noteq> None) urls = []
      then (Some (Error ''failed to unsubscribe using any of the found URLs''), calls @ urls)
      else (None, calls @ takeWhile (\<lambda>u. handle u \<noteq> None) urls
                  @ [hd (dropWhile (\<lambda>u. handle u \<noteq> None) urls)]))"
proof (induction urls arbitrary: calls)
  case Nil
  show ?case by simp
next
  case (Cons u urls)
  show ?case
  proof (cases "handle u")
    case None
    then show ?thesis by simp
  next
    case (Some err)
    then show ?thesis by (simp add: Cons.IH)
  qed
qed

lemma dedupeLoop_set:
  "set (dedupeLoop us seen res) = set res \<union> (set us - set seen)"
  by (induction us seen res rule: dedupeLoop.induct) auto

lemma dedupeLoop_distinct:
  "distinct res \<Longrightarrow> set res \<subseteq> set seen \<Longrightarrow> distinct (dedupeLoop us seen res)"
  by (induction us seen res rule: dedupeLoop.induct) auto

lemma findUnsubscribeLinks_distinct: "distinct (fst (findUnsubscribeLinks lib email))"
  by (simp add: findUnsubscribeLinks_def Let_def dedupeLoop_distinct)

lemma findUnsubscribeLinks_no_error: "snd (findUnsubscribeLinks lib email) = None"
  by (simp add: findUnsubscribeLinks_def Let_def)

text \<open>
  Claim C8. With \<open>urls\<close> the candidates found in the message, in discovery order:
  when there is none the call fails at once with no network call; otherwise the candidates
  are handled in order up to the first one that succeeds, where the call returns \<open>nil\<close>;
  when every candidate fails, all were tried and the call returns the one error
  "failed to unsubscribe using any of the found URLs".
\<close>

theorem processEmailUnsubscribe_first_success:
  "processEmailUnsubscribe lib handle email =
     (if fst (findUnsubscribeLinks lib email) = []
      then (Some (Error ''no unsubscribe links found in email body''), [])
      else if dropWhile (\<lambda>u. handle u \<noteq> None) (fst (findUnsubscribeLinks lib email)) = []
      then (Some (Error ''failed to unsubscribe using any of the found URLs''),
            fst (findUnsubscribeLinks lib email))
      else (None,
            takeWhile (\<lambda>u. handle u \<noteq> None) (fst (findUnsubscribeLinks lib email))
            @ [hd (dropWhile (\<lambda>u. handle u \<noteq> None) (fst (findUnsubscribeLinks lib email)))]))"
proof -
  obtain urls err where f: "findUnsubscribeLinks lib email = (urls, err)"
    by (cases "findUnsubscribeLinks lib email")
  with findUnsubscribeLinks_no_error[of lib email] have e: "err = None" by simp
  show ?thesis
    by (auto simp add: processEmailUnsubscribe_def f e tryURLs_closed_form)
qed

lemma processEmailUnsubscribe_all_fail:
  assumes "\<And>u. handle u \<noteq> None"
  shows "fst (processEmailUnsubscribe lib handle e) \<noteq> None"
proof -
  obtain urls err where f: "findUnsubscribeLinks lib e = (urls, err)"
    by (cases "findUnsubscribeLinks lib e")
  with findUnsubscribeLinks_no_error[of lib e] have e: "err = None" by simp
  have "dropWhile (\<lambda>u. handle u \<noteq> None) urls = []"
    using assms by (simp add: dropWhile_eq_Nil_conv)
  then show ?thesis
    by (simp add: processEmailUnsubscribe_def f e tryURLs_closed_form)
qed

lemma unsubscribeLoop_logged:
  "\<forall>u. handle u \<noteq> None \<Longrightarrow>
   length (snd (unsubscribeLoop lib handle es (calls, logged))) = length logged + length es"
proof (induction es arbitrary: calls logged)
  case Nil
  show ?case by simp
next
  case (Cons e es)
  have "fst (processEmailUnsubscribe lib handle e) \<noteq> None"
    using Cons.prems by (intro processEmailUnsubscribe_all_fail) simp
  then obtain err cs where "processEmailUnsubscribe lib handle e = (Some err, cs)"
    by (cases "processEmailUnsubscribe lib handle e") auto
  then show ?case using Cons.IH[OF Cons.prems] by simp
qed

lemma UnsubscribeEmails_total_failure:
  assumes "\<forall>u. handle u \<noteq> None"
    and "UnsubscribeEmails lib handle findByID emailIDs userID = (r, calls, logged)"
  shows "r = None \<and> length logged = length (validateLoop findByID userID emailIDs [])"
proof -
  let ?valid = "validateLoop findByID userID emailIDs []"
  have "length (snd (unsubscribeLoop lib handle ?valid ([], []))) = length ?valid"
    using unsubscribeLoop_logged[OF assms(1), of lib ?valid "[]" "[]"] by simp
  then show ?thesis
    using assms(2) by (auto simp add: UnsubscribeEmails_def Let_def split: if_splits)
qed

text \<open>
  Claim C10. \<open>UnsubscribeEmails\<close> returns \<open>nil\<close> for every input: whatever the repository
  finds, whoever owns the messages and whatever the outcome of each unsubscribe attempt,
  also when every attempt fails and when no message passes the check.
\<close>

theorem UnsubscribeEmails_returns_nil:
  "fst (UnsubscribeEmails lib handle findByID emailIDs userID) = None \<and>
   fst (UnsubscribeEmails lib (\<lambda>u. Some (Error ''unreachable'')) findByID emailIDs userID) = None \<and>
   fst (UnsubscribeEmails lib handle (\<lambda>i. Inl (Error ''email not found'')) emailIDs userID) = None"
  by (simp add: UnsubscribeEmails_def Let_def)

section \<open>Bulk delete: remote failure\<close>

lemma gmailDeleteLoop_fail: "gmailDeleteLoop (\<lambda>messageID remote. (Some e, remote)) ids r = r"
  by (induction ids) simp_all

lemma gmailClient_DeleteEmails_nil:
  "fst (gmailClient_DeleteEmails apiDelete userEmail messageIDs remote) = None"
  by (simp add: gmailClient_DeleteEmails_def)

lemma DeleteEmails_remote_error_keeps_local:
  assumes "\<forall>userEmail ids r. fst (gmailDelete userEmail ids r) \<noteq> None"
  shows "fst (snd (DeleteEmails gmailDelete users emailIDs userID (emails, remote))) = emails"
proof -
  obtain es gs where c: "deleteCollectLoop emails userID emailIDs ([], []) = (es, gs)"
    by (cases "deleteCollectLoop emails userID emailIDs ([], [])")
  show ?thesis
  proof (cases "user_FindByID users userID")
    case (Inl err)
    then show ?thesis by (simp add: DeleteEmails_def c)
  next
    case (Inr user)
    obtain r e where g: "gmailDelete (user_Email user) gs remote = (Some e, r)"
      using assms by (cases "gmailDelete (user_Email user) gs remote") (metis fst_conv not_Some_eq)
    show ?thesis by (simp add: DeleteEmails_def c Inr g)
  qed
qed

text \<open>
  Claim C3, evaluated on the code: three messages of user \<open>u1\<close> are stored, and every
  remote delete call fails. \<open>gmailClient.DeleteEmails\<close> logs the three errors and returns
  \<open>nil\<close>, so \<open>emailService.DeleteEmails\<close> goes on: the three messages are deleted
  locally while the remote mailbox still holds them, and the call returns \<open>nil\<close>.
\<close>

theorem DeleteEmails_remote_failure_deletes_locally:
  "DeleteEmails
     (gmailClient_DeleteEmails
        (\<lambda>messageID remote. (Some (Error ''googleapi: Error 500: Backend Error''), remote)))
     [(''u1'', user1)] [''m1'', ''m2'', ''m3''] ''u1''
     ([(''m1'', stored ''m1'' ''u1'' ''g1''), (''m2'', stored ''m2'' ''u1'' ''g2''),
       (''m3'', stored ''m3'' ''u1'' ''g3'')],
      [''g1'', ''g2'', ''g3''])
   = (None, [], [''g1'', ''g2'', ''g3''])"
  by (simp add: DeleteEmails_def gmailClient_DeleteEmails_def repo_FindByID_def repo_Delete_def
      user_FindByID_def stored_def fetched_def user1_def AList.delete_eq)

section \<open>Sync: running twice\<close>

text \<open>
  The loop after \<open>wg.Wait()\<close> stores every fetched message under its local id, whether
  or not the goroutine skipped it: after a sync that returns \<open>nil\<close>, the local id of every
  fetched message is a key of the store.
\<close>

lemma ClassifyAndSummarizeEmail_ID:
  "ClassifyAndSummarizeEmail ai now email categories = (err, email') \<Longrightarrow> ID email' = ID email"
  by (auto simp add: ClassifyAndSummarizeEmail_def Let_def split: sum.splits option.splits list.splits)

lemma syncOne_ID:
  "syncOne ai archive now userID categories email emails = (err, email', emails') \<Longrightarrow>
   ID email' = ID email"
  by (auto simp add: syncOne_def Let_def repo_Create_def
      split: sum.splits option.splits prod.splits dest: ClassifyAndSummarizeEmail_ID)

lemma syncLoop_IDs:
  "syncLoop ai archive now userID categories gmailEmails emails = (errs, processed, emails') \<Longrightarrow>
   map ID processed = map ID gmailEmails"
proof (induction gmailEmails arbitrary: emails errs processed emails')
  case Nil
  then show ?case by simp
next
  case (Cons e es)
  obtain err e' s1 where o: "syncOne ai archive now userID categories e emails = (err, e', s1)"
    by (cases "syncOne ai archive now userID categories e emails")
  obtain errs2 p2 s2 where l: "syncLoop ai archive now userID categories es s1 = (errs2, p2, s2)"
    by (cases "syncLoop ai archive now userID categories es s1")
  from Cons.prems o l have "processed = e' # p2" by simp
  with Cons.IH[OF l] syncOne_ID[OF o] show ?case by simp
qed

lemma dom_map_of_update:
  "dom (map_of (AList.update k v al)) = insert k (dom (map_of al))"
  by (simp add: dom_map_of_conv_image_fst dom_update)

lemma createAll_keeps_keys:
  "createAll uid es emails = (err, emails') \<Longrightarrow> dom (map_of emails) \<subseteq> dom (map_of emails')"
proof (induction es arbitrary: emails)
  case Nil
  then show ?case by simp
next
  case (Cons x xs)
  from Cons.prems
  have "createAll uid xs (AList.update (ID x) (x\<lparr>UserID := uid\<rparr>) emails) = (err, emails')"
    by (simp add: repo_Create_def)
  from Cons.IH[OF this]
  have "insert (ID x) (dom (map_of emails)) \<subseteq> dom (map_of emails')"
    by (simp add: dom_map_of_update)
  then show ?case by blast
qed

lemma createAll_stores_all:
  "createAll uid es emails = (err, emails') \<Longrightarrow>
   err = None \<and> set (map ID es) \<subseteq> dom (map_of emails')"
proof (induction es arbitrary: emails)
  case Nil
  then show ?case by simp
next
  case (Cons e es)
  from Cons.prems
  have c: "createAll uid es (AList.update (ID e) (e\<lparr>UserID := uid\<rparr>) emails) = (err, emails')"
    by (simp add: repo_Create_def)
  from createAll_keeps_keys[OF c]
  have "insert (ID e) (dom (map_of emails)) \<subseteq> dom (map_of emails')"
    by (simp add: dom_map_of_update)
  with Cons.IH[OF c] show ?case by simp
qed

lemma SyncEmails_stores_every_fetched:
  assumes "user_FindByID users userID = Inr user"
    and "listUnread (user_Email user) = Inr gmailEmails"
    and "SyncEmails ai listUnread archive now users (Inr categories) userID emails = (None, emails')"
  shows "set (map ID gmailEmails) \<subseteq> dom (map_of emails')"
proof -
  obtain errs processed s1 where
    l: "syncLoop ai archive now userID categories gmailEmails emails = (errs, processed, s1)"
    by (cases "syncLoop ai archive now userID categories gmailEmails emails")
  show ?thesis
  proof (cases errs)
    case Nil
    with assms l have "createAll (user_ID user) processed s1 = (None, emails')"
      by (simp add: SyncEmails_def)
    from createAll_stores_all[OF this] syncLoop_IDs[OF l] show ?thesis
      by (metis list.set_map)
  next
    case (Cons e es)
    with assms l show ?thesis by (simp add: SyncEmails_def)
  qed
qed

text \<open>
  Claim C1, evaluated on the code: the provider holds one message \<open>msg_123\<close>. The first
  sync stores it, classified and archived. For the second sync the client fetches the same
  provider message (as a new \<open>Email\<close> with a new local id); the goroutine skips it, but the
  loop after \<open>wg.Wait()\<close> creates every fetched message, so the store now holds two
  messages of \<open>u1\<close> with provider id \<open>msg_123\<close>.
\<close>

theorem SyncEmails_twice_duplicates:
  "SyncEmails ai1 (\<lambda>userEmail. Inr [fetched ''a1'' ''msg_123'']) (\<lambda>gmailID. None) 1700000200
     [(''u1'', user1)] (Inr [work]) ''u1'' []
   = (None, [(''a1'', (stored ''a1'' ''u1'' ''msg_123'')
                \<lparr>Summary := ''Summary of the email'', CategoryID := ''c1'', Archived := True,
                 UpdatedAt := 1700000200\<rparr>)]) \<and>
   SyncEmails ai1 (\<lambda>userEmail. Inr [fetched ''a2'' ''msg_123'']) (\<lambda>gmailID. None) 1700000300
     [(''u1'', user1)] (Inr [work]) ''u1''
     [(''a1'', (stored ''a1'' ''u1'' ''msg_123'')
                \<lparr>Summary := ''Summary of the email'', CategoryID := ''c1'', Archived := True,
                 UpdatedAt := 1700000200\<rparr>)]
   = (None, [(''a1'', (stored ''a1'' ''u1'' ''msg_123'')
                \<lparr>Summary := ''Summary of the email'', CategoryID := ''c1'', Archived := True,
                 UpdatedAt := 1700000200\<rparr>),
             (''a2'', stored ''a2'' ''u1'' ''msg_123'')])"
  by (simp add: SyncEmails_def syncOne_def ClassifyAndSummarizeEmail_def repo_FindByGmailID_def
      repo_Create_def repo_Update_def user_FindByID_def stored_def fetched_def user1_def work_def ai1_def Let_def)

section \<open>Message store: the uniqueness constraint\<close>

lemma onConflictUpdate_keeps [simp]:
  "GmailID (onConflictUpdate now e r) = GmailID r"
  "ID (onConflictUpdate now e r) = ID r"
  "CreatedAt (onConflictUpdate now e r) = CreatedAt r"
  "UserID (onConflictUpdate now e r) = UserID e"
  by (simp_all add: onConflictUpdate_def)

lemma pg_Create_upsert_map:
  "map GmailID (map (\<lambda>row. if GmailID row = g then onConflictUpdate now e row else row) rows)
     = map GmailID rows"
  "map ID (map (\<lambda>row. if GmailID row = g then onConflictUpdate now e row else row) rows)
     = map ID rows"
  by (induction rows) simp_all

lemma pg_Create_gmail:
  "distinct (map GmailID rows) \<Longrightarrow> distinct (map GmailID (snd (pg_Create now e rows)))"
  unfolding pg_Create_def
  by (simp add: pg_Create_upsert_map list_ex_iff del: map_map) auto

lemma pg_Create_id:
  "distinct (map ID rows) \<Longrightarrow> distinct (map ID (snd (pg_Create now e rows)))"
  unfolding pg_Create_def
  by (simp add: pg_Create_upsert_map list_ex_iff del: map_map) auto

lemma pg_Update_gmail: "map GmailID (snd (pg_Update now e rows)) = map GmailID rows"
  unfolding pg_Update_def by (induction rows) auto

lemma pg_Update_id: "map ID (snd (pg_Update now e rows)) = map ID rows"
  unfolding pg_Update_def by (induction rows) auto

lemma pg_Delete_distinct: "distinct (map f rows) \<Longrightarrow> distinct (map f (snd (pg_Delete i rows)))"
  by (simp add: pg_Delete_def distinct_map_filter)

lemma pg_step_inv:
  "distinct (map GmailID rows) \<and> distinct (map ID rows) \<Longrightarrow>
   distinct (map GmailID (pg_step op rows)) \<and> distinct (map ID (pg_step op rows))"
  by (cases op) (simp_all add: pg_Create_gmail pg_Create_id pg_Update_gmail pg_Update_id pg_Delete_distinct)

lemma fold_pg_step_inv:
  "distinct (map GmailID rows) \<and> distinct (map ID rows) \<Longrightarrow>
   distinct (map GmailID (fold pg_step ops rows)) \<and> distinct (map ID (fold pg_step ops rows))"
proof (induction ops arbitrary: rows)
  case Nil
  then show ?case by simp
next
  case (Cons op ops)
  from pg_step_inv[OF Cons.prems] show ?case
    by (simp add: Cons.IH)
qed

lemma distinct_pair: "distinct (map g xs) \<Longrightarrow> distinct (map (\<lambda>x. (f x, g x)) xs)"
  by (induction xs) auto

lemma pg_run_distinct:
  "distinct (map GmailID (pg_run ops)) \<and> distinct (map ID (pg_run ops))"
  unfolding pg_run_def by (rule fold_pg_step_inv) simp

text \<open>
  The table keeps provider ids distinct on their own, whoever owns the rows.
\<close>

lemma pg_run_pairs_distinct:
  "distinct (map (\<lambda>row. (UserID row, GmailID row)) (pg_run ops))"
  using pg_run_distinct by (blast intro: distinct_pair)

text \<open>
  Claim C2, evaluated on the code: user \<open>u1\<close> has stored the provider message \<open>g1\<close>, and
  user \<open>u2\<close> creates a message with the same provider id. The statement succeeds, adds no
  row, and turns the stored row into a message of \<open>u2\<close>: the lookup by (owner, provider
  id) no longer finds the message of \<open>u1\<close> and finds, for \<open>u2\<close>, the row with the local id
  \<open>a1\<close> that \<open>u1\<close> created. The in-memory repository keeps both messages at this input.
\<close>

theorem pg_Create_reassigns_owner:
  "pg_Create 1700000500 (stored ''b1'' ''u2'' ''g1'') [stored ''a1'' ''u1'' ''g1'']
     = (None, [(stored ''a1'' ''u2'' ''g1'')\<lparr>UpdatedAt := 1700000500\<rparr>]) \<and>
   pg_FindByGmailID [(stored ''a1'' ''u2'' ''g1'')\<lparr>UpdatedAt := 1700000500\<rparr>] ''u1'' ''g1''
     = Inl (Error ''email not found'') \<and>
   pg_FindByGmailID [(stored ''a1'' ''u2'' ''g1'')\<lparr>UpdatedAt := 1700000500\<rparr>] ''u2'' ''g1''
     = Inr ((stored ''a1'' ''u2'' ''g1'')\<lparr>UpdatedAt := 1700000500\<rparr>) \<and>
   snd (repo_Create (stored ''b1'' ''u2'' ''g1'') [(''a1'', stored ''a1'' ''u1'' ''g1'')])
     = [(''a1'', stored ''a1'' ''u1'' ''g1''), (''b1'', stored ''b1'' ''u2'' ''g1'')]"
  by (simp add: pg_Create_def pg_FindByGmailID_def fitsColumns_def onConflictUpdate_def
      repo_Create_def stored_def fetched_def)

section \<open>Mailbox client: plain text to HTML\<close>

lemma char_of_bits:
  "char_of (n::nat) = Char (odd n) (odd (n div 2)) (odd (n div 4)) (odd (n div 8))
     (odd (n div 16)) (odd (n div 32)) (odd (n div 64)) (odd (n div 128))"
  by (simp add: char_of_def bit_iff_odd)

lemmas base64_eval =
  DecodeString_def quantum3_def quantum2_def quantum1_def b64val_def char_of_bits

lemmas textToHtml_eval =
  textToHtml_def TrimSpace_def isSpace_def EscapeString_def escapeChar_def

lemma Split_no_sep: "sep \<notin> set s \<Longrightarrow> Split s sep = [s]"
  by (induction s) auto

lemma Split_append_sep: "sep \<notin> set s \<Longrightarrow> Split (s @ sep # rest) sep = s # Split rest sep"
  by (induction s) auto

lemma Split_nonempty: "Split s sep \<noteq> []"
  by (induction s) (auto split: list.splits)

lemma TrimSpace_Nil [simp]: "TrimSpace [] = []"
  by (simp add: TrimSpace_def)

lemma textLoop_lines:
  "textLoop i n lines result =
     result @ concat (map (\<lambda>(k, line0). renderLine n k line0) (enumerate i lines))"
  by (induction lines arbitrary: i result) (simp_all add: Let_def renderLine_def)

text \<open>
  Claim C7 fails as stated: the text is split at every line feed, not at blank lines. A
  body of three paragraphs separated by one blank line whose first paragraph has two lines
  gives four paragraph elements with text (and two spacers), not three.
\<close>

theorem textToHtml_splits_every_line:
  "textToHtml (''a'' @ [CHR 0x0A] @ ''b'' @ [CHR 0x0A, CHR 0x0A] @ ''c'' @ [CHR 0x0A, CHR 0x0A] @ ''d'')
     = ''<p>a</p><p>b</p><p>&nbsp;</p><p>c</p><p>&nbsp;</p><p>d</p>''"
  by (simp add: textToHtml_eval)

text \<open>
  Claim C7 as amended. The text is split at every line feed; a line that is not blank gives
  a paragraph element with the line trimmed and escaped, and a blank line other than the
  first and the last line gives the paragraph \<open><p>&nbsp;</p>\<close>. In particular, three
  paragraphs of one line each, separated by one blank line, give exactly three paragraph
  elements with text, with a spacer between consecutive ones.
\<close>

theorem textToHtml_line_by_line:
  "textToHtml text =
     concat (map (\<lambda>(i, line0). renderLine (length (Split text (CHR 0x0A))) i line0)
               (enumerate 0 (Split text (CHR 0x0A)))) \<and>
   (CHR 0x0A \<notin> set p1 \<and> CHR 0x0A \<notin> set p2 \<and> CHR 0x0A \<notin> set p3 \<and>
    TrimSpace p1 \<noteq> [] \<and> TrimSpace p2 \<noteq> [] \<and> TrimSpace p3 \<noteq> [] \<longrightarrow>
      textToHtml (p1 @ [CHR 0x0A, CHR 0x0A] @ p2 @ [CHR 0x0A, CHR 0x0A] @ p3) =
        ''<p>'' @ EscapeString (TrimSpace p1) @ ''</p>'' @ ''<p>&nbsp;</p>'' @
        ''<p>'' @ EscapeString (TrimSpace p2) @ ''</p>'' @ ''<p>&nbsp;</p>'' @
        ''<p>'' @ EscapeString (TrimSpace p3) @ ''</p>'')"
proof -
  have g: "textToHtml text =
     concat (map (\<lambda>(i, line0). renderLine (length (Split text (CHR 0x0A))) i line0)
               (enumerate 0 (Split text (CHR 0x0A))))"
    by (simp add: textToHtml_def Let_def textLoop_lines)
  have t: "textToHtml (p1 @ [CHR 0x0A, CHR 0x0A] @ p2 @ [CHR 0x0A, CHR 0x0A] @ p3) =
        ''<p>'' @ EscapeString (TrimSpace p1) @ ''</p>'' @ ''<p>&nbsp;</p>'' @
        ''<p>'' @ EscapeString (TrimSpace p2) @ ''</p>'' @ ''<p>&nbsp;</p>'' @
        ''<p>'' @ EscapeString (TrimSpace p3) @ ''</p>''"
    if a: "CHR 0x0A \<notin> set p1" "CHR 0x0A \<notin> set p2" "CHR 0x0A \<notin> set p3"
      and n: "TrimSpace p1 \<noteq> []" "TrimSpace p2 \<noteq> []" "TrimSpace p3 \<noteq> []"
  proof -
    have s: "Split (p1 @ [CHR 0x0A, CHR 0x0A] @ p2 @ [CHR 0x0A, CHR 0x0A] @ p3) (CHR 0x0A)
               = [p1, [], p2, [], p3]"
      using a
        Split_append_sep[of "CHR 0x0A" p1 "CHR 0x0A # p2 @ [CHR 0x0A, CHR 0x0A] @ p3"]
        Split_append_sep[of "CHR 0x0A" "[]" "p2 @ [CHR 0x0A, CHR 0x0A] @ p3"]
        Split_append_sep[of "CHR 0x0A" p2 "CHR 0x0A # p3"]
        Split_append_sep[of "CHR 0x0A" "[]" p3]
        Split_no_sep[of "CHR 0x0A" p3]
      by simp
    show ?thesis
      unfolding textToHtml_def s using n by (simp add: Let_def)
  qed
  from g t show ?thesis by blast
qed

theorem textToHtml_line_by_line_witness:
  "CHR 0x0A \<notin> set ''First <one>'' \<and> CHR 0x0A \<notin> set ''Second'' \<and> CHR 0x0A \<notin> set '' Third'' \<and>
   TrimSpace ''First <one>'' \<noteq> [] \<and> TrimSpace ''Second'' \<noteq> [] \<and> TrimSpace '' Third'' \<noteq> [] \<and>
   textToHtml (''First <one>'' @ [CHR 0x0A, CHR 0x0A] @ ''Second'' @ [CHR 0x0A, CHR 0x0A] @ '' Third'')
     = ''<p>First &lt;one&gt;</p><p>&nbsp;</p><p>Second</p><p>&nbsp;</p><p>Third</p>''"
proof -
  have h: "CHR 0x0A \<notin> set ''First <one>''" "CHR 0x0A \<notin> set ''Second''"
    "CHR 0x0A \<notin> set '' Third''"
    "TrimSpace ''First <one>'' \<noteq> []" "TrimSpace ''Second'' \<noteq> []" "TrimSpace '' Third'' \<noteq> []"
    by (simp_all add: TrimSpace_def isSpace_def)
  have e: "EscapeString (TrimSpace ''First <one>'') = ''First &lt;one&gt;''"
    "EscapeString (TrimSpace ''Second'') = ''Second''"
    "EscapeString (TrimSpace '' Third'') = ''Third''"
    by (simp_all add: TrimSpace_def isSpace_def EscapeString_def escapeChar_def)
  have "textToHtml (''First <one>'' @ [CHR 0x0A, CHR 0x0A] @ ''Second'' @ [CHR 0x0A, CHR 0x0A]
            @ '' Third'')
     = ''<p>First &lt;one&gt;</p><p>&nbsp;</p><p>Second</p><p>&nbsp;</p><p>Third</p>''"
    using h textToHtml_line_by_line[of "''x''" "''First <one>''" "''Second''" "'' Third''",
        THEN conjunct2]
    by (simp add: e)
  with h show ?thesis by blast
qed

section \<open>Mailbox client: HTML before plain text\<close>

text \<open>
  Among parts of one level the loop does give HTML the priority: when no part has
  sub-parts, the result is the content of the last HTML part that decodes, wherever the
  plain-text parts are.
\<close>

lemma multipartLoop_flat_no_html:
  assumes "list_all (\<lambda>part. Parts part = [] \<and> \<not> decodableHtml part) parts"
  shows "\<exists>textBody'. multipartLoop parts htmlBody textBody = multipartLoop [] htmlBody textBody'"
  using assms
proof (induction parts arbitrary: textBody)
  case Nil
  show ?case by blast
next
  case (Cons part parts)
  obtain mime hs d ps where p: "part = MessagePart mime hs d ps" by (cases part)
  from Cons.prems have flat: "ps = []" and nohtml: "\<not> decodableHtml part"
    and rest: "list_all (\<lambda>part. Parts part = [] \<and> \<not> decodableHtml part) parts"
    by (auto simp add: p)
  from nohtml have n: "mime = ''text/html'' \<and> d \<noteq> [] \<Longrightarrow> DecodeString d = None"
    by (simp add: decodableHtml_def p)
  show ?case
  proof (cases "mime = ''text/html'' \<and> d \<noteq> []")
    case True
    with n Cons.IH[OF rest, of textBody] show ?thesis by (simp add: p)
  next
    case False
    show ?thesis
    proof (cases "mime = ''text/plain'' \<and> d \<noteq> []")
      case True
      show ?thesis
      proof (cases "DecodeString d")
        case None
        with False True Cons.IH[OF rest, of textBody] show ?thesis by (simp add: p)
      next
        case (Some decoded)
        with False True Cons.IH[OF rest, of decoded] show ?thesis by (simp add: p)
      qed
    next
      case f2: False
      with False flat Cons.IH[OF rest, of textBody] show ?thesis by (auto simp add: p)
    qed
  qed
qed

lemma multipartLoop_html_first:
  "d \<noteq> [] \<Longrightarrow> DecodeString d = Some html \<Longrightarrow>
   multipartLoop (MessagePart ''text/html'' hs d ps # rest) htmlBody textBody
     = multipartLoop rest html textBody"
  by simp

lemma multipartLoop_flat_prefix:
  assumes "list_all (\<lambda>part. Parts part = []) pre"
  shows "\<exists>htmlBody' textBody'.
           multipartLoop (pre @ rest) htmlBody textBody = multipartLoop rest htmlBody' textBody'"
  using assms
proof (induction pre arbitrary: htmlBody textBody)
  case Nil
  show ?case by auto
next
  case (Cons part pre)
  obtain mime hs d ps where p: "part = MessagePart mime hs d ps" by (cases part)
  from Cons.prems have flat: "ps = []" and rest: "list_all (\<lambda>part. Parts part = []) pre"
    by (auto simp add: p)
  show ?case
  proof (cases "mime = ''text/html'' \<and> d \<noteq> []")
    case True
    show ?thesis
    proof (cases "DecodeString d")
      case None
      with True Cons.IH[OF rest, of htmlBody textBody] show ?thesis by (simp add: p)
    next
      case (Some decoded)
      with True Cons.IH[OF rest, of decoded textBody] show ?thesis by (simp add: p)
    qed
  next
    case False
    show ?thesis
    proof (cases "mime = ''text/plain'' \<and> d \<noteq> []")
      case True
      show ?thesis
      proof (cases "DecodeString d")
        case None
        with False True Cons.IH[OF rest, of htmlBody textBody] show ?thesis by (simp add: p)
      next
        case (Some decoded)
        with False True Cons.IH[OF rest, of htmlBody decoded] show ?thesis by (simp add: p)
      qed
    next
      case f2: False
      with False flat Cons.IH[OF rest, of htmlBody textBody] show ?thesis by (auto simp add: p)
    qed
  qed
qed

lemma extractMultipartBody_flat_html_wins:
  assumes "list_all (\<lambda>part. Parts part = []) pre"
    and "list_all (\<lambda>part. Parts part = [] \<and> \<not> decodableHtml part) post"
    and "d \<noteq> []" and "DecodeString d = Some html" and "html \<noteq> []"
  shows "extractMultipartBody (pre @ MessagePart ''text/html'' hs d [] # post) = Ret html"
proof -
  obtain h t where
    1: "multipartLoop (pre @ MessagePart ''text/html'' hs d [] # post) [] []
          = multipartLoop (MessagePart ''text/html'' hs d [] # post) h t"
    using multipartLoop_flat_prefix[OF assms(1)] by blast
  have 2: "multipartLoop (MessagePart ''text/html'' hs d [] # post) h t = multipartLoop post html t"
    using assms(3,4) by simp
  obtain t' where 3: "multipartLoop post html t = multipartLoop [] html t'"
    using multipartLoop_flat_no_html[OF assms(2)] by blast
  show ?thesis
    unfolding extractMultipartBody_def 1 2 3 using assms(5) by simp
qed

lemma DecodeString_examples:
  "DecodeString ''aGk='' = Some ''hi''"
  "DecodeString ''PGI-eDwvYj4='' = Some ''<b>x</b>''"
  by (simp_all add: base64_eval)

text \<open>
  Claim C6, evaluated on the code: a multipart message whose first part is a nested
  multipart part holding only the plain text \<open>hi\<close> and whose second part is the HTML part
  \<open><b>x</b>\<close>. The nested part yields the HTML made from its plain text; no HTML has been
  seen yet, so \<open>extractMultipartBody\<close> returns it at once and never reaches the HTML part.
\<close>

theorem extractBody_returns_plain_text_before_html:
  "extractBody
     (MessagePart ''multipart/mixed'' [] ''''
        [MessagePart ''multipart/alternative'' [] ''''
           [MessagePart ''text/plain'' [] ''aGk='' []],
         MessagePart ''text/html'' [] ''PGI-eDwvYj4='' []])
     = Ret (textToHtml ''hi'') \<and>
   textToHtml ''hi'' = ''<p>hi</p>'' \<and>
   DecodeString ''PGI-eDwvYj4='' = Some ''<b>x</b>''"
  by (simp add: extractBody_def extractMultipartBody_def DecodeString_examples textToHtml_eval)

section \<open>Mailbox client: the cursor\<close>

lemma GmailID_toEmail [simp]: "GmailID (toEmail uuid now msgId message body) = msgId"
  by (simp add: toEmail_def NewEmail_def split: prod.splits)

lemma fetchLoop_skipping:
  "afterEmailID \<noteq> [] \<Longrightarrow> afterEmailID \<notin> set ids \<Longrightarrow>
   fetchLoop api newUUID clock afterEmailID ids False emails = Ret emails"
  by (induction ids) auto

lemma fetchLoop_cursor:
  "afterEmailID \<noteq> [] \<Longrightarrow> afterEmailID \<notin> set pre \<Longrightarrow>
   fetchLoop api newUUID clock afterEmailID (pre @ afterEmailID # post) False emails
     = fetchLoop api newUUID clock afterEmailID post True emails"
  by (induction pre) auto

lemma fetchLoop_collecting:
  assumes "afterEmailID \<notin> set ids" and "list_all (bodyDecodes api) ids"
  shows "\<exists>new. fetchLoop api newUUID clock afterEmailID ids True emails = Ret (emails @ new) \<and>
               map GmailID new = filter (getSucceeds api) ids \<and>
               (\<forall>k < length new.
                  built api newUUID clock (length emails + k) (filter (getSucceeds api) ids ! k)
                    (new ! k))"
  using assms
proof (induction ids arbitrary: emails)
  case Nil
  then show ?case by simp
next
  case (Cons i ids)
  from Cons.prems have r: "afterEmailID \<notin> set ids" "list_all (bodyDecodes api) ids"
    and i: "i \<noteq> afterEmailID" and d: "bodyDecodes api i"
    by auto
  show ?case
  proof (cases "apiGet api i")
    case (Inl err)
    then have f: "filter (getSucceeds api) (i # ids) = filter (getSucceeds api) ids"
      by (simp add: getSucceeds_def)
    from Cons.IH[OF r, of emails] Inl i show ?thesis
      unfolding f by simp
  next
    case (Inr message)
    with d obtain body where b: "extractBody (Payload message) = Ret body"
      by (auto simp add: bodyDecodes_def split: ret.splits)
    let ?e = "toEmail (newUUID (length emails)) (clock (length emails)) i message body"
    from Inr have f: "filter (getSucceeds api) (i # ids) = i # filter (getSucceeds api) ids"
      by (simp add: getSucceeds_def)
    from Cons.IH[OF r, of "emails @ [?e]"] obtain new where
      n: "fetchLoop api newUUID clock afterEmailID ids True (emails @ [?e])
            = Ret ((emails @ [?e]) @ new)"
      and m: "map GmailID new = filter (getSucceeds api) ids"
      and a: "\<forall>k < length new.
                built api newUUID clock (length (emails @ [?e]) + k)
                  (filter (getSucceeds api) ids ! k) (new ! k)"
      by blast
    have 1: "fetchLoop api newUUID clock afterEmailID (i # ids) True emails
               = Ret (emails @ (?e # new))"
      using i Inr b n by simp
    have 2: "map GmailID (?e # new) = filter (getSucceeds api) (i # ids)"
      unfolding f using m by simp
    have 3: "\<forall>k < length (?e # new).
               built api newUUID clock (length emails + k)
                 (filter (getSucceeds api) (i # ids) ! k) ((?e # new) ! k)"
    proof (intro allI impI)
      fix k assume k: "k < length (?e # new)"
      show "built api newUUID clock (length emails + k)
              (filter (getSucceeds api) (i # ids) ! k) ((?e # new) ! k)"
      proof (cases k)
        case 0
        then show ?thesis unfolding f by (simp add: built_def Inr b)
      next
        case (Suc j)
        with k have "j < length new" by simp
        with a have "built api newUUID clock (length (emails @ [?e]) + j)
                       (filter (getSucceeds api) ids ! j) (new ! j)" by blast
        then show ?thesis unfolding f using Suc by simp
      qed
    qed
    from 1 2 3 show ?thesis by blast
  qed
qed

text \<open>
  Claim C5 fails as stated: on a page of five with the cursor at the third id, the full
  fetch of the fourth message fails; the client logs the error and goes on, and returns
  the fifth message only, not messages four and five.
\<close>

theorem gmailClient_SyncEmails_skips_failed_fetch:
  "gmailClient_SyncEmails api5b 3 uuid5 clock5 5 ''m3'' =
     Ret (Inr [NewEmail ''uuid-'' 1700000300 '''' ''m5'' ''sender@example.com'' ''Hello'' ''hi''
                 1700000000])"
  by (simp add: gmailClient_SyncEmails_def api5b_def api5_def uuid5_def clock5_def toEmail_def
      quot_def extractBody_def extractBodyAsText_def DecodeString_examples)

text \<open>
  Claim C5 as amended. For a non-empty cursor: when the page does not hold the cursor id, no
  message is returned; when the page is \<open>pre @ cursor # post\<close>, with the cursor id nowhere
  else, and no body of a fetched message of \<open>post\<close> makes the decoder panic, the result is
  exactly the messages built for those ids of \<open>post\<close> whose full fetch succeeds, in the
  order of the page. Nothing before the cursor, and not the cursor's message, is returned.
\<close>

theorem gmailClient_SyncEmails_cursor:
  assumes "afterEmailID \<noteq> []"
    and "apiList api (if maxResults \<le> 0 then envMaxFetch else maxResults) = Inr page"
  shows "(afterEmailID \<notin> set page \<longrightarrow>
            gmailClient_SyncEmails api envMaxFetch newUUID clock maxResults afterEmailID
              = Ret (Inr [])) \<and>
         (page = pre @ afterEmailID # post \<and> afterEmailID \<notin> set pre \<and> afterEmailID \<notin> set post \<and>
          list_all (bodyDecodes api) post \<longrightarrow>
            (\<exists>emails.
               gmailClient_SyncEmails api envMaxFetch newUUID clock maxResults afterEmailID
                 = Ret (Inr emails) \<and>
               map GmailID emails = filter (getSucceeds api) post \<and>
               (\<forall>k < length emails.
                  built api newUUID clock k (filter (getSucceeds api) post ! k) (emails ! k))))"
proof -
  have 1: "gmailClient_SyncEmails api envMaxFetch newUUID clock maxResults afterEmailID
              = Ret (Inr [])" if "afterEmailID \<notin> set page"
    using assms that by (simp add: gmailClient_SyncEmails_def fetchLoop_skipping)
  have 2: "\<exists>emails.
               gmailClient_SyncEmails api envMaxFetch newUUID clock maxResults afterEmailID
                 = Ret (Inr emails) \<and>
               map GmailID emails = filter (getSucceeds api) post \<and>
               (\<forall>k < length emails.
                  built api newUUID clock k (filter (getSucceeds api) post ! k) (emails ! k))"
    if p: "page = pre @ afterEmailID # post" "afterEmailID \<notin> set pre" "afterEmailID \<notin> set post"
      "list_all (bodyDecodes api) post"
  proof -
    from fetchLoop_collecting[OF p(3) p(4), of newUUID clock "[]"] obtain new where
      n: "fetchLoop api newUUID clock afterEmailID post True [] = Ret new"
      and m: "map GmailID new = filter (getSucceeds api) post"
      and a: "\<forall>k < length new.
                built api newUUID clock k (filter (getSucceeds api) post ! k) (new ! k)"
      by auto
    have "gmailClient_SyncEmails api envMaxFetch newUUID clock maxResults afterEmailID
                 = Ret (Inr new)"
      using assms p(1,2) n by (simp add: gmailClient_SyncEmails_def fetchLoop_cursor)
    with m a show ?thesis by blast
  qed
  from 1 2 show ?thesis by blast
qed

theorem gmailClient_SyncEmails_cursor_witness:
  "''m3'' \<noteq> [] \<and>
   apiList api5b (if (5::int) \<le> 0 then 3 else 5) = Inr [''m1'', ''m2'', ''m3'', ''m4'', ''m5''] \<and>
   [''m1'', ''m2'', ''m3'', ''m4'', ''m5''] = [''m1'', ''m2''] @ ''m3'' # [''m4'', ''m5''] \<and>
   ''m3'' \<notin> set [''m1'', ''m2''] \<and> ''m3'' \<notin> set [''m4'', ''m5''] \<and>
   list_all (bodyDecodes api5b) [''m4'', ''m5''] \<and>
   filter (getSucceeds api5b) [''m4'', ''m5''] = [''m5''] \<and>
   (\<exists>emails. gmailClient_SyncEmails api5b 3 uuid5 clock5 5 ''m3'' = Ret (Inr emails) \<and>
              map GmailID emails = [''m5'']) \<and>
   gmailClient_SyncEmails api5b 3 uuid5 clock5 5 ''zz'' = Ret (Inr [])"
proof -
  have b: "extractBody (MessagePart ''text/plain''
             [(''Subject'', ''Hello''), (''From'', ''sender@example.com'')] ''aGk='' []) = Ret ''hi''"
    by (simp add: extractBody_def extractBodyAsText_def DecodeString_examples)
  have h: "''m3'' \<noteq> []"
    "apiList api5b (if (5::int) \<le> 0 then 3 else 5) = Inr [''m1'', ''m2'', ''m3'', ''m4'', ''m5'']"
    "[''m1'', ''m2'', ''m3'', ''m4'', ''m5''] = [''m1'', ''m2''] @ ''m3'' # [''m4'', ''m5'']"
    "''m3'' \<notin> set [''m1'', ''m2'']" "''m3'' \<notin> set [''m4'', ''m5'']"
    by (simp_all add: api5b_def api5_def)
  have f: "list_all (bodyDecodes api5b) [''m4'', ''m5'']"
    by (simp add: bodyDecodes_def api5b_def api5_def b)
  have g: "filter (getSucceeds api5b) [''m4'', ''m5''] = [''m5'']"
    by (simp add: getSucceeds_def api5b_def api5_def)
  have z: "''zz'' \<noteq> []" "''zz'' \<notin> set [''m1'', ''m2'', ''m3'', ''m4'', ''m5'']" by simp_all
  note t3 = gmailClient_SyncEmails_cursor[OF h(1) h(2), where pre = "[''m1'', ''m2'']"
      and post = "[''m4'', ''m5'']" and newUUID = uuid5 and clock = clock5]
  have p3: "[''m1'', ''m2'', ''m3'', ''m4'', ''m5''] = [''m1'', ''m2''] @ ''m3'' # [''m4'', ''m5''] \<and>
      ''m3'' \<notin> set [''m1'', ''m2''] \<and> ''m3'' \<notin> set [''m4'', ''m5''] \<and>
      list_all (bodyDecodes api5b) [''m4'', ''m5'']"
    using h(3-5) f by (intro conjI)
  from mp[OF conjunct2[OF t3] p3] obtain emails where
    e: "gmailClient_SyncEmails api5b 3 uuid5 clock5 5 ''m3'' = Ret (Inr emails)"
      "map GmailID emails = filter (getSucceeds api5b) [''m4'', ''m5'']"
    by (elim exE conjE)
  have 1: "\<exists>emails. gmailClient_SyncEmails api5b 3 uuid5 clock5 5 ''m3'' = Ret (Inr emails) \<and>
              map GmailID emails = [''m5'']"
    using e unfolding g by (intro exI conjI)
  note tz = gmailClient_SyncEmails_cursor[OF z(1) h(2), where pre = "[]" and post = "[]"
      and newUUID = uuid5 and clock = clock5]
  have 2: "gmailClient_SyncEmails api5b 3 uuid5 clock5 5 ''zz'' = Ret (Inr [])"
    using mp[OF conjunct1[OF tz] z(2)] .
  from h f g 1 2 show ?thesis by (intro conjI)
qed

lemma gmailClient_SyncEmails_page_of_five:
  "gmailClient_SyncEmails api5 3 uuid5 clock5 5 ''m3'' =
     Ret (Inr [NewEmail ''uuid-'' 1700000300 '''' ''m4'' ''sender@example.com'' ''Hello'' ''hi''
                 1700000000,
               NewEmail ''uuid-x'' 1700000301 '''' ''m5'' ''sender@example.com'' ''Hello'' ''hi''
                 1700000000])"
  by (simp add: gmailClient_SyncEmails_def api5_def uuid5_def clock5_def toEmail_def quot_def
      extractBody_def extractBodyAsText_def DecodeString_examples)

section \<open>Broadcaster registry\<close>

text \<open>
  An operation that returns keeps every owner of the registry with at least one sink, and
  unregistering an open sink that is registered for the owner closes it and leaves the
  owner with the remaining sinks, or with no entry when it was the last one.
\<close>

lemma AddClient_nonEmptySets: "nonEmptySets s \<Longrightarrow> nonEmptySets (snd (AddClient userID s))"
  by (cases "clients s userID") (auto simp add: nonEmptySets_def AddClient_def Let_def)

lemma RemoveClient_nonEmptySets:
  assumes inv: "nonEmptySets s" and r: "RemoveClient userID channel s = Returned s'"
  shows "nonEmptySets s'"
proof (cases "clients s userID")
  case None
  with r have "s' = s" by (simp add: RemoveClient_def)
  with inv show ?thesis by simp
next
  case (Some existing)
  show ?thesis
  proof (cases "removeAll channel existing = []")
    case True
    with r Some have "clients s' = (clients s)(userID := None)"
      by (auto simp add: RemoveClient_def Let_def split: if_splits)
    then show ?thesis
      using inv unfolding nonEmptySets_def by (metis fun_upd_apply option.distinct(1))
  next
    case False
    with r Some have "clients s' = (clients s)(userID \<mapsto> removeAll channel existing)"
      by (auto simp add: RemoveClient_def Let_def split: if_splits)
    then show ?thesis
      using inv False unfolding nonEmptySets_def by (metis fun_upd_apply option.inject)
  qed
qed

lemma sendLoop_clients: "clients (stateOf (sendLoop jsonData channels s)) = clients s"
  by (induction channels arbitrary: s) simp_all

lemma deliver_clients: "clients (stateOf (deliver userID payload s)) = clients s"
  by (simp add: deliver_def sendLoop_clients split: option.splits)

lemma deliver_nonEmptySets: "nonEmptySets s \<Longrightarrow> nonEmptySets (stateOf (deliver userID payload s))"
  by (simp add: nonEmptySets_def deliver_clients)

lemma receive_nonEmptySets: "nonEmptySets s \<Longrightarrow> nonEmptySets (receive channel s)"
  by (simp add: nonEmptySets_def receive_def)

lemma sse_step_returned_nonEmptySets:
  assumes "nonEmptySets s" and "sse_step op s = Returned s'"
  shows "nonEmptySets s'"
proof (cases op)
  case (Register userID)
  with assms show ?thesis by (auto simp add: AddClient_nonEmptySets)
next
  case (Unregister userID channel)
  with assms show ?thesis by (auto dest: RemoveClient_nonEmptySets)
next
  case (Deliver userID payload)
  with assms deliver_nonEmptySets[of s userID payload] show ?thesis by simp
next
  case (Receive channel)
  with assms show ?thesis by (auto simp add: receive_nonEmptySets)
qed

lemma RemoveClient_open_sink:
  assumes "clients s userID = Some userClients" and "channel \<in> set userClients"
    and "channel \<notin> closed s"
  shows "\<exists>s'. RemoveClient userID channel s = Returned s' \<and> channel \<in> closed s' \<and>
              clients s' userID = (if removeAll channel userClients = [] then None
                                   else Some (removeAll channel userClients)) \<and>
              (\<forall>other. other \<noteq> userID \<longrightarrow> clients s' other = clients s other)"
  using assms by (auto simp add: RemoveClient_def Let_def)


end
